theory Spec2Isabelle
  imports Complex_Main "HOL-Library.Word" "HOL-Library.Log_Nat"
begin

text \<open>
  A shallow embedding of the rating program: the record decoders, the bounded ranking
  structure \<^verbatim>\<open>Rating\<close> and the two aggregation strategies of main.go, followed by
  the properties of the specification that they do and do not satisfy.
\<close>

section \<open>Data model (main.go)\<close>

text \<open>
  Go's \<^verbatim>\<open>int64\<close> is a 64-bit word: \<open>+\<close> wraps around, \<open>sint\<close> reads the
  two's-complement value.
\<close>

type_synonym int64 = "64 word"

text \<open>
  The package-level error values of main.go. \<open>IOError\<close> stands for every error that
  \<^verbatim>\<open>os.Open\<close> or \<^verbatim>\<open>csv.Reader.Read\<close> hands back (other than \<^verbatim>\<open>io.EOF\<close>),
  identified by its message.
\<close>

datatype error =
    ErrCantDownloadArchive
  | ErrUnhandledHeaderTypeInArchive
  | ErrInvalidEventCSV
  | ErrInvalidUserCSV
  | ErrInvalidCommitCSV
  | ErrInvalidRepoCSV
  | IOError string

text \<open>
  The structs. A field \<^verbatim>\<open>F\<close> of struct \<^verbatim>\<open>S\<close> is written \<open>S_F\<close>, since Go reuses
  the field names \<^verbatim>\<open>ID\<close>, \<^verbatim>\<open>Name\<close>, \<^verbatim>\<open>Commits\<close>, ... across structs; the long
  struct names are shortened to their initials (\<open>CRR\<close>, \<open>WRR\<close>, \<open>RU\<close>, \<open>RCW\<close>).
\<close>

record Event =
  Event_ID :: string
  Event_Type :: string
  Event_ActorID :: string
  Event_RepoID :: string

record User =
  User_ID :: string
  User_Username :: string

record Commit =
  Commit_Hash :: string
  Commit_Message :: string
  Commit_EventID :: string

record Repo =
  Repo_ID :: string
  Repo_Name :: string

record CommitRatableRepo =
  CRR_ID :: string
  CRR_Name :: string
  CRR_Commits :: int64

record WatchRatableRepo =
  WRR_ID :: string
  WRR_Name :: string
  WRR_WatchEvents :: int64

record RatableUser =
  RU_ID :: string
  RU_Username :: string
  RU_Commits :: int64
  RU_PREvents :: int64

record RepoWithCommitsAndWatches =
  RCW_ID :: string
  RCW_Name :: string
  RCW_Commits :: int64
  RCW_WatchEvents :: int64

subsection \<open>Event type constants (eventTypes.go)\<close>

definition eventTypePush :: string where
  "eventTypePush = ''PushEvent''"

definition eventTypeWatch :: string where
  "eventTypeWatch = ''WatchEvent''"

definition eventTypePullRequest :: string where
  "eventTypePullRequest = ''PullRequestEvent''"

subsection \<open>Record decoders\<close>

text \<open>
  \<^verbatim>\<open>NewEventFromCSV\<close> and its three siblings: a length check, then the fields by
  position. The indices read are below the checked length.
\<close>

definition NewEventFromCSV :: "string list \<Rightarrow> error + Event" where
  "NewEventFromCSV csv =
     (if length csv \<noteq> 4 then Inl ErrInvalidEventCSV
      else Inr \<lparr>Event_ID = csv ! 0, Event_Type = csv ! 1,
                Event_ActorID = csv ! 2, Event_RepoID = csv ! 3\<rparr>)"

definition NewUserFromCSV :: "string list \<Rightarrow> error + User" where
  "NewUserFromCSV csv =
     (if length csv \<noteq> 2 then Inl ErrInvalidUserCSV
      else Inr \<lparr>User_ID = csv ! 0, User_Username = csv ! 1\<rparr>)"

definition NewCommitFromCSV :: "string list \<Rightarrow> error + Commit" where
  "NewCommitFromCSV csv =
     (if length csv \<noteq> 3 then Inl ErrInvalidCommitCSV
      else Inr \<lparr>Commit_Hash = csv ! 0, Commit_Message = csv ! 1, Commit_EventID = csv ! 2\<rparr>)"

definition NewRepoFromCSV :: "string list \<Rightarrow> error + Repo" where
  "NewRepoFromCSV csv =
     (if length csv \<noteq> 2 then Inl ErrInvalidRepoCSV
      else Inr \<lparr>Repo_ID = csv ! 0, Repo_Name = csv ! 1\<rparr>)"

section \<open>The ranking structure (rating.go)\<close>

text \<open>
  The interface \<^verbatim>\<open>Ratable\<close> has three implementations in the package; a value of the
  interface is one of them.
\<close>

datatype Ratable =
    OfCommitRatableRepo CommitRatableRepo
  | OfWatchRatableRepo WatchRatableRepo
  | OfRatableUser RatableUser

text \<open>
  The conversion \<^verbatim>\<open>float64(x)\<close> of an \<^verbatim>\<open>int64\<close>: the nearest double, ties to even.
  A double with a 53-bit significand that is at least \<open>2 ^ 53\<close> in magnitude is an integer,
  so the result is given as the integer it denotes; \<open>e\<close> is the number of low bits that do
  not fit. The result is never NaN, so the order of the results is the order of \<open>int\<close>.
\<close>

definition float64 :: "int64 \<Rightarrow> int" where
  "float64 x =
     (let v = sint x;
          a = \<bar>v\<bar>;
          e = nat (bitlen a - 53);
          q = a div 2 ^ e;
          r = a mod 2 ^ e;
          q' = (if 2 * r > 2 ^ e \<or> (2 * r = 2 ^ e \<and> odd q) then q + 1 else q)
      in sgn v * (q' * 2 ^ e))"

fun GetRating :: "Ratable \<Rightarrow> int" where
  "GetRating (OfCommitRatableRepo r) = float64 (CRR_Commits r)"
| "GetRating (OfWatchRatableRepo r) = float64 (WRR_WatchEvents r)"
| "GetRating (OfRatableUser u) = float64 (RU_PREvents u + RU_Commits u)"

text \<open>
  \<^verbatim>\<open>Rating\<close>: the held slice and the capacity. \<^verbatim>\<open>NewRating\<close> is the only constructor;
  \<^verbatim>\<open>make\<close> panics on a negative capacity, so a constructed Rating has a capacity in
  \<open>nat\<close>.
\<close>

record Rating =
  slice_r :: "Ratable list"
  size_r :: nat

definition NewRating :: "int \<Rightarrow> Rating option" where
  "NewRating n = (if n < 0 then None else Some \<lparr>slice_r = [], size_r = nat n\<rparr>)"

text \<open>
  \<^verbatim>\<open>insert(a, index, value)\<close>. For \<open>index < len(a)\<close> the slice \<^verbatim>\<open>a[:index+1]\<close> is
  extended by \<^verbatim>\<open>a[index:]\<close> and position \<open>index\<close> is overwritten; for \<open>index > len(a)\<close>
  the slice expression \<^verbatim>\<open>a[index:]\<close> panics (\<open>None\<close>).
\<close>

definition insert_slice :: "Ratable list \<Rightarrow> nat \<Rightarrow> Ratable \<Rightarrow> Ratable list option" where
  "insert_slice a index v =
     (if length a = index then Some (a @ [v])
      else if length a < index then None
      else Some ((take (index + 1) a @ drop index a)[index := v]))"

text \<open>
  The \<^verbatim>\<open>for i, value := range r.slice\<close> loop of \<^verbatim>\<open>TryPush\<close>: \<open>i\<close> is the index of
  the head of the part of the slice still to visit.
\<close>

fun TryPush_range :: "Rating \<Rightarrow> Ratable \<Rightarrow> nat \<Rightarrow> Ratable list \<Rightarrow> (bool \<times> Rating) option" where
  "TryPush_range r item i [] = Some (False, r)"
| "TryPush_range r item i (v # rest) =
     (if GetRating item > GetRating v then
        (case insert_slice (slice_r r) i item of
           None \<Rightarrow> None
         | Some s \<Rightarrow>
             Some (True, r\<lparr>slice_r := (if length s > size_r r then take (size_r r) s else s)\<rparr>))
      else TryPush_range r item (i + 1) rest)"

definition TryPush :: "Rating \<Rightarrow> Ratable \<Rightarrow> (bool \<times> Rating) option" where
  "TryPush r item =
     (if length (slice_r r) = 0 then Some (True, r\<lparr>slice_r := slice_r r @ [item]\<rparr>)
      else TryPush_range r item 0 (slice_r r))"

text \<open>
  Offering a sequence of items in turn, as the callers' loops do (they drop the
  boolean): the Rating after the last offer, \<open>None\<close> if an offer panicked.
\<close>

fun TryPush_all :: "Rating \<Rightarrow> Ratable list \<Rightarrow> Rating option" where
  "TryPush_all r [] = Some r"
| "TryPush_all r (item # items) =
     (case TryPush r item of None \<Rightarrow> None | Some (ok, r') \<Rightarrow> TryPush_all r' items)"

text \<open>
  The specification's "true top-K by score, ties broken by offer order (earliest wins)",
  written from its words for comparison with the code: the offered items stably sorted
  by descending score, cut to the first K.
\<close>

definition spec_topK :: "nat \<Rightarrow> Ratable list \<Rightarrow> Ratable list" where
  "spec_topK K items = take K (sort_key (\<lambda>x. - GetRating x) items)"

section \<open>The tables on disk\<close>

text \<open>
  Every scan opens its file anew with \<^verbatim>\<open>os.Open\<close> and reads it with a
  \<^verbatim>\<open>csv.Reader\<close>. A file is what these two calls deliver: the error of a failed open,
  or the results of the successive \<^verbatim>\<open>Read\<close> calls (a record or an error) up to
  \<^verbatim>\<open>io.EOF\<close>, which is the end of the list. \<open>App\<close> stands for the receiver's
  \<^verbatim>\<open>tempDir\<close> together with the four files below it; the files do not change during a
  run, so every open of a file delivers the same.
\<close>

type_synonym csv_rows = "(error + string list) list"

type_synonym csv_file = "error + csv_rows"

record App =
  actorsFile :: csv_file
  commitsFile :: csv_file
  eventsFile :: csv_file
  reposFile :: csv_file

text \<open>
  What a function of the aggregation does: it returns its results with a nil error,
  returns an error, or panics.
\<close>

datatype 'a outcome = Returned 'a | Failed error | Panicked

section \<open>Counting (space-optimized strategy)\<close>

text \<open>
  The read loop of \<^verbatim>\<open>countCommitsByEvent\<close>; \<open>wasHeaderRead\<close> and \<open>total_n\<close>
  (the source's \<^verbatim>\<open>total\<close>) are the loop's variables.
\<close>

fun countCommitsByEvent_loop :: "string \<Rightarrow> csv_rows \<Rightarrow> bool \<Rightarrow> int64 \<Rightarrow> error + int64" where
  "countCommitsByEvent_loop eventID [] wasHeaderRead total_n = Inr total_n"
| "countCommitsByEvent_loop eventID (Inl err # rest) wasHeaderRead total_n = Inl err"
| "countCommitsByEvent_loop eventID (Inr record # rest) wasHeaderRead total_n =
     (if \<not> wasHeaderRead then countCommitsByEvent_loop eventID rest True total_n
      else case NewCommitFromCSV record of
        Inl err \<Rightarrow> Inl err
      | Inr commit \<Rightarrow>
          if Commit_EventID commit \<noteq> eventID then countCommitsByEvent_loop eventID rest True total_n
          else countCommitsByEvent_loop eventID rest True (total_n + 1))"

text \<open>A failed open returns \<^verbatim>\<open>0, nil\<close>: the count 0 and no error.\<close>

definition countCommitsByEvent :: "App \<Rightarrow> string \<Rightarrow> error + int64" where
  "countCommitsByEvent a eventID =
     (case commitsFile a of
        Inl err \<Rightarrow> Inr 0
      | Inr rows \<Rightarrow> countCommitsByEvent_loop eventID rows False 0)"

text \<open>The body of the read loop of \<^verbatim>\<open>countUserRating\<close> for one decoded event.\<close>

definition countUserRating_event ::
  "App \<Rightarrow> string \<Rightarrow> Event \<Rightarrow> int64 \<Rightarrow> int64 \<Rightarrow> error + (int64 \<times> int64)" where
  "countUserRating_event a userID event totalCommits totalPREvents =
     (if Event_ActorID event \<noteq> userID then Inr (totalCommits, totalPREvents)
      else if Event_Type event = eventTypePush then
        (case countCommitsByEvent a (Event_ID event) of
           Inl err \<Rightarrow> Inl err
         | Inr commitCount \<Rightarrow> Inr (totalCommits + commitCount, totalPREvents))
      else if Event_Type event = eventTypePullRequest then Inr (totalCommits, totalPREvents + 1)
      else Inr (totalCommits, totalPREvents))"

fun countUserRating_loop ::
  "App \<Rightarrow> string \<Rightarrow> csv_rows \<Rightarrow> bool \<Rightarrow> int64 \<Rightarrow> int64 \<Rightarrow> error + (int64 \<times> int64)" where
  "countUserRating_loop a userID [] wasHeaderRead totalCommits totalPREvents =
     Inr (totalCommits, totalPREvents)"
| "countUserRating_loop a userID (Inl err # rest) wasHeaderRead totalCommits totalPREvents =
     Inl err"
| "countUserRating_loop a userID (Inr record # rest) wasHeaderRead totalCommits totalPREvents =
     (if \<not> wasHeaderRead then countUserRating_loop a userID rest True totalCommits totalPREvents
      else case NewEventFromCSV record of
        Inl err \<Rightarrow> Inl err
      | Inr event \<Rightarrow>
          (case countUserRating_event a userID event totalCommits totalPREvents of
             Inl err \<Rightarrow> Inl err
           | Inr (totalCommits', totalPREvents') \<Rightarrow>
               countUserRating_loop a userID rest True totalCommits' totalPREvents'))"

definition countUserRating :: "App \<Rightarrow> string \<Rightarrow> error + (int64 \<times> int64)" where
  "countUserRating a userID =
     (case eventsFile a of
        Inl err \<Rightarrow> Inl err
      | Inr rows \<Rightarrow> countUserRating_loop a userID rows False 0 0)"

text \<open>The same for \<^verbatim>\<open>countRepoRating\<close>.\<close>

definition countRepoRating_event ::
  "App \<Rightarrow> string \<Rightarrow> Event \<Rightarrow> int64 \<Rightarrow> int64 \<Rightarrow> error + (int64 \<times> int64)" where
  "countRepoRating_event a repoID event commitsPushed watchEvents =
     (if Event_RepoID event \<noteq> repoID then Inr (commitsPushed, watchEvents)
      else if Event_Type event = eventTypePush then
        (case countCommitsByEvent a (Event_ID event) of
           Inl err \<Rightarrow> Inl err
         | Inr commitsByEvent \<Rightarrow> Inr (commitsPushed + commitsByEvent, watchEvents))
      else if Event_Type event = eventTypeWatch then Inr (commitsPushed, watchEvents + 1)
      else Inr (commitsPushed, watchEvents))"

fun countRepoRating_loop ::
  "App \<Rightarrow> string \<Rightarrow> csv_rows \<Rightarrow> bool \<Rightarrow> int64 \<Rightarrow> int64 \<Rightarrow> error + (int64 \<times> int64)" where
  "countRepoRating_loop a repoID [] wasHeaderRead commitsPushed watchEvents =
     Inr (commitsPushed, watchEvents)"
| "countRepoRating_loop a repoID (Inl err # rest) wasHeaderRead commitsPushed watchEvents =
     Inl err"
| "countRepoRating_loop a repoID (Inr record # rest) wasHeaderRead commitsPushed watchEvents =
     (if \<not> wasHeaderRead then countRepoRating_loop a repoID rest True commitsPushed watchEvents
      else case NewEventFromCSV record of
        Inl err \<Rightarrow> Inl err
      | Inr event \<Rightarrow>
          (case countRepoRating_event a repoID event commitsPushed watchEvents of
             Inl err \<Rightarrow> Inl err
           | Inr (commitsPushed', watchEvents') \<Rightarrow>
               countRepoRating_loop a repoID rest True commitsPushed' watchEvents'))"

definition countRepoRating :: "App \<Rightarrow> string \<Rightarrow> error + (int64 \<times> int64)" where
  "countRepoRating a repoID =
     (case eventsFile a of
        Inl err \<Rightarrow> Inl err
      | Inr rows \<Rightarrow> countRepoRating_loop a repoID rows False 0 0)"

text \<open>
  \<^verbatim>\<open>rateReposByCommitsAndWatchesSpaceOptimized\<close>: one \<^verbatim>\<open>countRepoRating\<close> and two
  offers per row of the repo table. The progress lines printed on the way are left out,
  here and below.
\<close>

fun rateRepos_loop ::
  "App \<Rightarrow> csv_rows \<Rightarrow> bool \<Rightarrow> Rating \<Rightarrow> Rating \<Rightarrow> (Rating \<times> Rating) outcome" where
  "rateRepos_loop a [] wasHeaderRead commitsRating watchRating =
     Returned (commitsRating, watchRating)"
| "rateRepos_loop a (Inl err # rest) wasHeaderRead commitsRating watchRating = Failed err"
| "rateRepos_loop a (Inr record # rest) wasHeaderRead commitsRating watchRating =
     (if \<not> wasHeaderRead then rateRepos_loop a rest True commitsRating watchRating
      else case NewRepoFromCSV record of
        Inl err \<Rightarrow> Failed err
      | Inr repo \<Rightarrow>
          (case countRepoRating a (Repo_ID repo) of
             Inl err \<Rightarrow> Failed err
           | Inr (commitsCount, watchCount) \<Rightarrow>
               (case TryPush commitsRating (OfCommitRatableRepo
                       \<lparr>CRR_ID = Repo_ID repo, CRR_Name = Repo_Name repo,
                        CRR_Commits = commitsCount\<rparr>) of
                  None \<Rightarrow> Panicked
                | Some (ok, commitsRating') \<Rightarrow>
                    (case TryPush watchRating (OfWatchRatableRepo
                            \<lparr>WRR_ID = Repo_ID repo, WRR_Name = Repo_Name repo,
                             WRR_WatchEvents = watchCount\<rparr>) of
                       None \<Rightarrow> Panicked
                     | Some (ok', watchRating') \<Rightarrow>
                         rateRepos_loop a rest True commitsRating' watchRating'))))"

definition rateReposByCommitsAndWatchesSpaceOptimized :: "App \<Rightarrow> (Rating \<times> Rating) outcome" where
  "rateReposByCommitsAndWatchesSpaceOptimized a =
     (case NewRating 10 of
        None \<Rightarrow> Panicked
      | Some commitsRating \<Rightarrow>
          (case NewRating 10 of
             None \<Rightarrow> Panicked
           | Some watchRating \<Rightarrow>
               (case reposFile a of
                  Inl err \<Rightarrow> Failed err
                | Inr rows \<Rightarrow> rateRepos_loop a rows False commitsRating watchRating)))"

text \<open>\<^verbatim>\<open>rateUsersByPRsAndCommitsSpaceOptimized\<close>.\<close>

fun rateUsers_loop :: "App \<Rightarrow> csv_rows \<Rightarrow> bool \<Rightarrow> Rating \<Rightarrow> Rating outcome" where
  "rateUsers_loop a [] wasHeaderRead rating = Returned rating"
| "rateUsers_loop a (Inl err # rest) wasHeaderRead rating = Failed err"
| "rateUsers_loop a (Inr record # rest) wasHeaderRead rating =
     (if \<not> wasHeaderRead then rateUsers_loop a rest True rating
      else case NewUserFromCSV record of
        Inl err \<Rightarrow> Failed err
      | Inr user \<Rightarrow>
          (case countUserRating a (User_ID user) of
             Inl err \<Rightarrow> Failed err
           | Inr (commitCount, prCount) \<Rightarrow>
               (case TryPush rating (OfRatableUser
                       \<lparr>RU_ID = User_ID user, RU_Username = User_Username user,
                        RU_Commits = commitCount, RU_PREvents = prCount\<rparr>) of
                  None \<Rightarrow> Panicked
                | Some (ok, rating') \<Rightarrow> rateUsers_loop a rest True rating')))"

definition rateUsersByPRsAndCommitsSpaceOptimized :: "App \<Rightarrow> Rating outcome" where
  "rateUsersByPRsAndCommitsSpaceOptimized a =
     (case NewRating 10 of
        None \<Rightarrow> Panicked
      | Some rating \<Rightarrow>
          (case actorsFile a of
             Inl err \<Rightarrow> Failed err
           | Inr rows \<Rightarrow> rateUsers_loop a rows False rating))"

definition SpaceOptimizedRatings :: "App \<Rightarrow> (Rating \<times> Rating \<times> Rating) outcome" where
  "SpaceOptimizedRatings a =
     (case rateUsersByPRsAndCommitsSpaceOptimized a of
        Failed err \<Rightarrow> Failed err
      | Panicked \<Rightarrow> Panicked
      | Returned usersRating \<Rightarrow>
          (case rateReposByCommitsAndWatchesSpaceOptimized a of
             Failed err \<Rightarrow> Failed err
           | Panicked \<Rightarrow> Panicked
           | Returned (repoCommitsRating, repoWatchesRating) \<Rightarrow>
               Returned (usersRating, repoCommitsRating, repoWatchesRating)))"

section \<open>Single-pass accumulation (performance-optimized strategy)\<close>

text \<open>
  The maps \<^verbatim>\<open>users\<close> and \<^verbatim>\<open>repos\<close>. Each holds pointers, one per key and held
  nowhere else until the ratings are filled, so updating a struct through its pointer is
  updating the map at its key.
\<close>

type_synonym users_map = "string \<rightharpoonup> RatableUser"

type_synonym repos_map = "string \<rightharpoonup> RepoWithCommitsAndWatches"

text \<open>
  The \<^verbatim>\<open>switch event.Type\<close> of \<^verbatim>\<open>PerformanceOptimizedRatings\<close> for one decoded event.
  A struct literal leaves the fields it does not name at their zero values.
\<close>

definition PO_event ::
  "App \<Rightarrow> Event \<Rightarrow> users_map \<Rightarrow> repos_map \<Rightarrow> error + (users_map \<times> repos_map)" where
  "PO_event a event users repos =
     (if Event_Type event = eventTypePush then
        (case countCommitsByEvent a (Event_ID event) of
           Inl err \<Rightarrow> Inl err
         | Inr commitsCount \<Rightarrow>
             Inr ((case users (Event_ActorID event) of
                     None \<Rightarrow> users(Event_ActorID event \<mapsto>
                       \<lparr>RU_ID = Event_ActorID event, RU_Username = [],
                        RU_Commits = commitsCount, RU_PREvents = 0\<rparr>)
                   | Some user \<Rightarrow> users(Event_ActorID event \<mapsto>
                       user\<lparr>RU_Commits := RU_Commits user + commitsCount\<rparr>)),
                  (case repos (Event_RepoID event) of
                     None \<Rightarrow> repos(Event_RepoID event \<mapsto>
                       \<lparr>RCW_ID = Event_RepoID event, RCW_Name = [],
                        RCW_Commits = commitsCount, RCW_WatchEvents = 0\<rparr>)
                   | Some repo \<Rightarrow> repos(Event_RepoID event \<mapsto>
                       repo\<lparr>RCW_Commits := RCW_Commits repo + commitsCount\<rparr>))))
      else if Event_Type event = eventTypePullRequest then
        Inr ((case users (Event_ActorID event) of
                None \<Rightarrow> users(Event_ActorID event \<mapsto>
                  \<lparr>RU_ID = Event_ActorID event, RU_Username = [],
                   RU_Commits = 0, RU_PREvents = 1\<rparr>)
              | Some user \<Rightarrow> users(Event_ActorID event \<mapsto>
                  user\<lparr>RU_PREvents := RU_PREvents user + 1\<rparr>)),
             repos)
      else if Event_Type event = eventTypeWatch then
        Inr (users,
             (case repos (Event_RepoID event) of
                None \<Rightarrow> repos(Event_RepoID event \<mapsto>
                  \<lparr>RCW_ID = Event_RepoID event, RCW_Name = [],
                   RCW_Commits = 0, RCW_WatchEvents = 1\<rparr>)
              | Some repo \<Rightarrow> repos(Event_RepoID event \<mapsto>
                  repo\<lparr>RCW_WatchEvents := RCW_WatchEvents repo + 1\<rparr>)))
      else Inr (users, repos))"

text \<open>
  The read loop over the event table. The error of \<^verbatim>\<open>NewEventFromCSV\<close> is not
  looked at: the next statement reads \<^verbatim>\<open>event.ID\<close>, and on a failed decode
  \<^verbatim>\<open>event\<close> is nil, so the read panics.
\<close>

fun PO_events_loop ::
  "App \<Rightarrow> csv_rows \<Rightarrow> bool \<Rightarrow> users_map \<Rightarrow> repos_map \<Rightarrow> (users_map \<times> repos_map) outcome" where
  "PO_events_loop a [] wasHeaderRead users repos = Returned (users, repos)"
| "PO_events_loop a (Inl err # rest) wasHeaderRead users repos = Failed err"
| "PO_events_loop a (Inr record # rest) wasHeaderRead users repos =
     (if \<not> wasHeaderRead then PO_events_loop a rest True users repos
      else case NewEventFromCSV record of
        Inl err \<Rightarrow> Panicked
      | Inr event \<Rightarrow>
          (case PO_event a event users repos of
             Inl err \<Rightarrow> Failed err
           | Inr (users', repos') \<Rightarrow> PO_events_loop a rest True users' repos'))"

text \<open>
  The first part of \<^verbatim>\<open>PerformanceOptimizedRatings\<close>, up to the end of the read loop:
  the two maps start empty.
\<close>

definition PO_events :: "App \<Rightarrow> (users_map \<times> repos_map) outcome" where
  "PO_events a =
     (case eventsFile a of
        Inl err \<Rightarrow> Failed err
      | Inr rows \<Rightarrow> PO_events_loop a rows False Map.empty Map.empty)"

text \<open>\<^verbatim>\<open>fillUsernames\<close>, which stores \<^verbatim>\<open>user.ID\<close> in \<^verbatim>\<open>rUser.Username\<close>.\<close>

fun fillUsernames_loop :: "csv_rows \<Rightarrow> bool \<Rightarrow> users_map \<Rightarrow> error + users_map" where
  "fillUsernames_loop [] wasHeaderRead users = Inr users"
| "fillUsernames_loop (Inl err # rest) wasHeaderRead users = Inl err"
| "fillUsernames_loop (Inr record # rest) wasHeaderRead users =
     (if \<not> wasHeaderRead then fillUsernames_loop rest True users
      else case NewUserFromCSV record of
        Inl err \<Rightarrow> Inl err
      | Inr user \<Rightarrow>
          (case users (User_ID user) of
             Some rUser \<Rightarrow>
               fillUsernames_loop rest True
                 (users(User_ID user \<mapsto> rUser\<lparr>RU_Username := User_ID user\<rparr>))
           | None \<Rightarrow> fillUsernames_loop rest True users))"

definition fillUsernames :: "App \<Rightarrow> users_map \<Rightarrow> error + users_map" where
  "fillUsernames a users =
     (case actorsFile a of
        Inl err \<Rightarrow> Inl err
      | Inr rows \<Rightarrow> fillUsernames_loop rows False users)"

text \<open>\<^verbatim>\<open>fillRepoNames\<close>, which stores \<^verbatim>\<open>repo.Name\<close> in \<^verbatim>\<open>rRepo.Name\<close>.\<close>

fun fillRepoNames_loop :: "csv_rows \<Rightarrow> bool \<Rightarrow> repos_map \<Rightarrow> error + repos_map" where
  "fillRepoNames_loop [] wasHeaderRead repos = Inr repos"
| "fillRepoNames_loop (Inl err # rest) wasHeaderRead repos = Inl err"
| "fillRepoNames_loop (Inr record # rest) wasHeaderRead repos =
     (if \<not> wasHeaderRead then fillRepoNames_loop rest True repos
      else case NewRepoFromCSV record of
        Inl err \<Rightarrow> Inl err
      | Inr repo \<Rightarrow>
          (case repos (Repo_ID repo) of
             Some rRepo \<Rightarrow>
               fillRepoNames_loop rest True
                 (repos(Repo_ID repo \<mapsto> rRepo\<lparr>RCW_Name := Repo_Name repo\<rparr>))
           | None \<Rightarrow> fillRepoNames_loop rest True repos))"

definition fillRepoNames :: "App \<Rightarrow> repos_map \<Rightarrow> error + repos_map" where
  "fillRepoNames a repos =
     (case reposFile a of
        Inl err \<Rightarrow> Inl err
      | Inr rows \<Rightarrow> fillRepoNames_loop rows False repos)"

text \<open>
  \<^verbatim>\<open>for _, value := range m\<close> visits every entry of a map once, in an order Go leaves
  open. The order is a parameter: the list of the keys as the loop meets them, which for
  a run of the program lists every key of \<open>m\<close> exactly once. The values are met in that
  order.
\<close>

definition range_values :: "string list \<Rightarrow> (string \<rightharpoonup> 'v) \<Rightarrow> 'v list" where
  "range_values order m = List.map_filter m order"

text \<open>The loop over the values of \<^verbatim>\<open>repos\<close>, with its two offers per value.\<close>

fun PO_repos_range ::
  "RepoWithCommitsAndWatches list \<Rightarrow> Rating \<Rightarrow> Rating \<Rightarrow> (Rating \<times> Rating) option" where
  "PO_repos_range [] repoCommitsRating repoWatchesRating =
     Some (repoCommitsRating, repoWatchesRating)"
| "PO_repos_range (v # rest) repoCommitsRating repoWatchesRating =
     (case TryPush repoCommitsRating (OfCommitRatableRepo
             \<lparr>CRR_ID = RCW_ID v, CRR_Name = RCW_Name v, CRR_Commits = RCW_Commits v\<rparr>) of
        None \<Rightarrow> None
      | Some (ok, repoCommitsRating') \<Rightarrow>
          (case TryPush repoWatchesRating (OfWatchRatableRepo
                  \<lparr>WRR_ID = RCW_ID v, WRR_Name = RCW_Name v,
                   WRR_WatchEvents = RCW_WatchEvents v\<rparr>) of
             None \<Rightarrow> None
           | Some (ok', repoWatchesRating') \<Rightarrow>
               PO_repos_range rest repoCommitsRating' repoWatchesRating'))"

text \<open>
  \<^verbatim>\<open>PerformanceOptimizedRatings\<close>; \<open>usersOrder\<close> and \<open>reposOrder\<close> are the orders in
  which the two final loops meet the keys of \<^verbatim>\<open>users\<close> and \<^verbatim>\<open>repos\<close>.
\<close>

definition PerformanceOptimizedRatings ::
  "App \<Rightarrow> string list \<Rightarrow> string list \<Rightarrow> (Rating \<times> Rating \<times> Rating) outcome" where
  "PerformanceOptimizedRatings a usersOrder reposOrder =
     (case (NewRating 10, NewRating 10, NewRating 10) of
        (Some usersRating, Some repoCommitsRating, Some repoWatchesRating) \<Rightarrow>
          (case PO_events a of
             Failed err \<Rightarrow> Failed err
           | Panicked \<Rightarrow> Panicked
           | Returned (users, repos) \<Rightarrow>
               (case fillUsernames a users of
                  Inl err \<Rightarrow> Failed err
                | Inr users' \<Rightarrow>
                    (case fillRepoNames a repos of
                       Inl err \<Rightarrow> Failed err
                     | Inr repos' \<Rightarrow>
                         (case TryPush_all usersRating
                                 (map OfRatableUser (range_values usersOrder users')) of
                            None \<Rightarrow> Panicked
                          | Some usersRating' \<Rightarrow>
                              (case PO_repos_range (range_values reposOrder repos')
                                      repoCommitsRating repoWatchesRating of
                                 None \<Rightarrow> Panicked
                               | Some (repoCommitsRating', repoWatchesRating') \<Rightarrow>
                                   Returned (usersRating', repoCommitsRating',
                                             repoWatchesRating'))))))
      | _ \<Rightarrow> Panicked)"

section \<open>Vocabulary of the statements\<close>

text \<open>
  The counters a stats map holds for an id: those of its entry, and 0 where it has none.
\<close>

definition userCommits :: "users_map \<Rightarrow> string \<Rightarrow> int64" where
  "userCommits users u = (case users u of None \<Rightarrow> 0 | Some x \<Rightarrow> RU_Commits x)"

definition userPREvents :: "users_map \<Rightarrow> string \<Rightarrow> int64" where
  "userPREvents users u = (case users u of None \<Rightarrow> 0 | Some x \<Rightarrow> RU_PREvents x)"

definition repoCommits :: "repos_map \<Rightarrow> string \<Rightarrow> int64" where
  "repoCommits repos r = (case repos r of None \<Rightarrow> 0 | Some x \<Rightarrow> RCW_Commits x)"

definition repoWatchEvents :: "repos_map \<Rightarrow> string \<Rightarrow> int64" where
  "repoWatchEvents repos r = (case repos r of None \<Rightarrow> 0 | Some x \<Rightarrow> RCW_WatchEvents x)"

text \<open>
  The record of an entity in its table, fields in the order the decoders read them, and a
  table that opens and reads without error: a header record, then the given records.
\<close>

definition Event_row :: "Event \<Rightarrow> string list" where
  "Event_row e = [Event_ID e, Event_Type e, Event_ActorID e, Event_RepoID e]"

definition Commit_row :: "Commit \<Rightarrow> string list" where
  "Commit_row c = [Commit_Hash c, Commit_Message c, Commit_EventID c]"

definition User_row :: "User \<Rightarrow> string list" where
  "User_row u = [User_ID u, User_Username u]"

definition Repo_row :: "Repo \<Rightarrow> string list" where
  "Repo_row r = [Repo_ID r, Repo_Name r]"

definition csv_table :: "string list \<Rightarrow> string list list \<Rightarrow> csv_file" where
  "csv_table header records = Inr (Inr header # map Inr records)"

text \<open>
  The commits pushed by a list of events, for a list of commits: for every Push event of
  the list, the number of commits that carry its id, summed up in 64-bit arithmetic.
\<close>

definition pushedCommits :: "Commit list \<Rightarrow> Event list \<Rightarrow> int64" where
  "pushedCommits cs es =
     sum_list (map (\<lambda>e. of_nat (length (filter (\<lambda>c. Commit_EventID c = Event_ID e) cs)))
                   (filter (\<lambda>e. Event_Type e = eventTypePush) es))"

text \<open>
  The words of the specification's invariant on stats records, for comparison with the
  code: a relevant event is a Push, PullRequest or Watch event, and an event references
  the ids of its actor and of its repo.
\<close>

definition relevant_event :: "Event \<Rightarrow> bool" where
  "relevant_event e \<longleftrightarrow>
     Event_Type e = eventTypePush \<or> Event_Type e = eventTypePullRequest \<or>
     Event_Type e = eventTypeWatch"

definition references :: "Event \<Rightarrow> string \<Rightarrow> bool" where
  "references e x \<longleftrightarrow> Event_ActorID e = x \<or> Event_RepoID e = x"

section \<open>Record decoders: arity is the only check\<close>

text \<open>
  Claim C9. Each decoder fails exactly when the number of fields differs from the arity of
  its entity (Event 4, User 2, Commit 3, Repo 2), and then with the entity's
  malformed-record error; with the right number of fields it succeeds on any strings
  (empty ones too) and assigns them by position.
\<close>

theorem decoders_check_arity_only:
  "(isl (NewEventFromCSV csv) \<longleftrightarrow> length csv \<noteq> 4) \<and>
   (length csv \<noteq> 4 \<longrightarrow> NewEventFromCSV csv = Inl ErrInvalidEventCSV) \<and>
   NewEventFromCSV [f0, f1, f2, f3] =
     Inr \<lparr>Event_ID = f0, Event_Type = f1, Event_ActorID = f2, Event_RepoID = f3\<rparr> \<and>
   (isl (NewUserFromCSV csv) \<longleftrightarrow> length csv \<noteq> 2) \<and>
   (length csv \<noteq> 2 \<longrightarrow> NewUserFromCSV csv = Inl ErrInvalidUserCSV) \<and>
   NewUserFromCSV [f0, f1] = Inr \<lparr>User_ID = f0, User_Username = f1\<rparr> \<and>
   (isl (NewCommitFromCSV csv) \<longleftrightarrow> length csv \<noteq> 3) \<and>
   (length csv \<noteq> 3 \<longrightarrow> NewCommitFromCSV csv = Inl ErrInvalidCommitCSV) \<and>
   NewCommitFromCSV [f0, f1, f2] =
     Inr \<lparr>Commit_Hash = f0, Commit_Message = f1, Commit_EventID = f2\<rparr> \<and>
   (isl (NewRepoFromCSV csv) \<longleftrightarrow> length csv \<noteq> 2) \<and>
   (length csv \<noteq> 2 \<longrightarrow> NewRepoFromCSV csv = Inl ErrInvalidRepoCSV) \<and>
   NewRepoFromCSV [f0, f1] = Inr \<lparr>Repo_ID = f0, Repo_Name = f1\<rparr>"
  by (simp add: NewEventFromCSV_def NewUserFromCSV_def NewCommitFromCSV_def NewRepoFromCSV_def)

theorem decoders_check_arity_only_witness:
  "length [''e1'', ''PushEvent'', ''u1''] \<noteq> 4 \<and>
   NewEventFromCSV [''e1'', ''PushEvent'', ''u1''] = Inl ErrInvalidEventCSV \<and>
   length [''e1'', ''PushEvent'', ''u1''] \<noteq> 2 \<and>
   NewUserFromCSV [''e1'', ''PushEvent'', ''u1''] = Inl ErrInvalidUserCSV \<and>
   NewRepoFromCSV [''e1'', ''PushEvent'', ''u1''] = Inl ErrInvalidRepoCSV \<and>
   NewCommitFromCSV ['''', '''', ''''] =
     Inr \<lparr>Commit_Hash = '''', Commit_Message = '''', Commit_EventID = ''''\<rparr>"
  using decoders_check_arity_only
    [of "[''e1'', ''PushEvent'', ''u1'']" "''''" "''''" "''''" "''''"]
  by simp

section \<open>The ranking structure\<close>

subsection \<open>What one offer does\<close>

text \<open>Counts that fit a double's significand convert exactly.\<close>

lemma float64_small:
  assumes "\<bar>sint x\<bar> < 2 ^ 53"
  shows "float64 x = sint x"
proof -
  have "bitlen \<bar>sint x\<bar> \<le> 53"
    using assms by (simp add: bitlen_le_iff_power)
  then have e: "nat (bitlen \<bar>sint x\<bar> - 53) = 0" by simp
  show ?thesis
    unfolding float64_def Let_def e by (simp add: mult_sgn_abs)
qed

lemma insert_slice_in_range:
  "index < length a \<Longrightarrow> insert_slice a index v = Some (take index a @ v # drop index a)"
  unfolding insert_slice_def
  by (simp add: list_update_append take_Suc_conv_app_nth)

text \<open>
  The loop, started at index \<open>i\<close> with \<open>pre\<close> behind it: it passes the items that score
  at least as much as \<open>item\<close> and inserts before the first that scores less.
\<close>

lemma TryPush_range_char:
  "slice_r r = pre @ rest \<Longrightarrow> length pre = i \<Longrightarrow>
   TryPush_range r item i rest =
     (if \<forall>v\<in>set rest. GetRating item \<le> GetRating v then Some (False, r)
      else Some (True, r\<lparr>slice_r := take (size_r r)
              (pre @ takeWhile (\<lambda>v. GetRating item \<le> GetRating v) rest
                   @ item # dropWhile (\<lambda>v. GetRating item \<le> GetRating v) rest)\<rparr>))"
proof (induction rest arbitrary: pre i)
  case Nil
  then show ?case by simp
next
  case (Cons v rest)
  show ?case
  proof (cases "GetRating item > GetRating v")
    case True
    have "i < length (slice_r r)" using Cons.prems by simp
    then have "insert_slice (slice_r r) i item =
        Some (take i (slice_r r) @ item # drop i (slice_r r))"
      by (rule insert_slice_in_range)
    also have "\<dots> = Some (pre @ item # v # rest)"
      using Cons.prems by simp
    finally show ?thesis using True by simp
  next
    case False
    have "slice_r r = (pre @ [v]) @ rest" "length (pre @ [v]) = i + 1"
      using Cons.prems by simp_all
    from Cons.IH[OF this] False show ?thesis by simp
  qed
qed

text \<open>
  \<^verbatim>\<open>TryPush\<close> in closed form. It never panics. An empty Rating takes the item whatever
  its capacity; a Rating that holds an item scoring less takes the item before the first
  such and is cut to its capacity; any other Rating, full or not, turns the item down.
\<close>

lemma TryPush_char:
  "TryPush r item =
     Some (if slice_r r = [] then (True, r\<lparr>slice_r := [item]\<rparr>)
           else if \<forall>v\<in>set (slice_r r). GetRating item \<le> GetRating v then (False, r)
           else (True, r\<lparr>slice_r := take (size_r r)
              (takeWhile (\<lambda>v. GetRating item \<le> GetRating v) (slice_r r)
                   @ item # dropWhile (\<lambda>v. GetRating item \<le> GetRating v) (slice_r r))\<rparr>))"
  unfolding TryPush_def
  using TryPush_range_char[of r "[]" "slice_r r" 0 item]
  by simp

text \<open>
  Claim C10. \<^verbatim>\<open>TryPush\<close> always returns, and whenever it returns false the Rating it
  leaves is the Rating it was given, whether the Rating was full or not.
\<close>

theorem TryPush_false_unchanged:
  "TryPush r item \<noteq> None \<and> (TryPush r item = Some (False, r') \<longrightarrow> r' = r)"
  by (simp add: TryPush_char split: if_splits)

theorem TryPush_false_unchanged_witness:
  "TryPush
     \<lparr>slice_r = [OfCommitRatableRepo \<lparr>CRR_ID = ''r1'', CRR_Name = ''one'', CRR_Commits = 5\<rparr>],
      size_r = 3\<rparr>
     (OfCommitRatableRepo \<lparr>CRR_ID = ''r2'', CRR_Name = ''two'', CRR_Commits = 5\<rparr>) =
   Some (False,
     \<lparr>slice_r = [OfCommitRatableRepo \<lparr>CRR_ID = ''r1'', CRR_Name = ''one'', CRR_Commits = 5\<rparr>],
      size_r = 3\<rparr>) \<and>
   \<lparr>slice_r = [OfCommitRatableRepo \<lparr>CRR_ID = ''r1'', CRR_Name = ''one'', CRR_Commits = 5\<rparr>],
    size_r = 3\<rparr> =
   \<lparr>slice_r = [OfCommitRatableRepo \<lparr>CRR_ID = ''r1'', CRR_Name = ''one'', CRR_Commits = 5\<rparr>],
    size_r = 3\<rparr>"
  using TryPush_false_unchanged
    [of "\<lparr>slice_r = [OfCommitRatableRepo
            \<lparr>CRR_ID = ''r1'', CRR_Name = ''one'', CRR_Commits = 5\<rparr>], size_r = 3\<rparr>"
        "OfCommitRatableRepo \<lparr>CRR_ID = ''r2'', CRR_Name = ''two'', CRR_Commits = 5\<rparr>"
        "\<lparr>slice_r = [OfCommitRatableRepo
            \<lparr>CRR_ID = ''r1'', CRR_Name = ''one'', CRR_Commits = 5\<rparr>], size_r = 3\<rparr>"]
  by (simp add: TryPush_def float64_small)

text \<open>
  Claim C1. The claim lets \<^verbatim>\<open>TryPush\<close> turn an item down only when the Rating is full.
  The code turns it down whenever the Rating is not empty and holds no item scoring less:
  a Rating of capacity 3 that holds one item of score 5 rejects an item of score 3.
\<close>

theorem TryPush_rejects_below_capacity:
  "TryPush
     \<lparr>slice_r = [OfCommitRatableRepo \<lparr>CRR_ID = ''r1'', CRR_Name = ''one'', CRR_Commits = 5\<rparr>],
      size_r = 3\<rparr>
     (OfCommitRatableRepo \<lparr>CRR_ID = ''r2'', CRR_Name = ''two'', CRR_Commits = 3\<rparr>) =
   Some (False,
     \<lparr>slice_r = [OfCommitRatableRepo \<lparr>CRR_ID = ''r1'', CRR_Name = ''one'', CRR_Commits = 5\<rparr>],
      size_r = 3\<rparr>)"
  by (simp add: TryPush_def float64_small)

text \<open>
  Claim C7. The claim has a Rating of capacity 0 reject every offer. The code takes the
  first offer: the branch for an empty slice appends and returns true without looking at
  the capacity, and the slice then holds one item.
\<close>

theorem TryPush_capacity_zero_accepts:
  "NewRating 0 = Some \<lparr>slice_r = [], size_r = 0\<rparr> \<and>
   TryPush \<lparr>slice_r = [], size_r = 0\<rparr> item = Some (True, \<lparr>slice_r = [item], size_r = 0\<rparr>)"
  by (simp add: NewRating_def TryPush_def)

subsection \<open>Runs of offers\<close>

text \<open>In a slice sorted by descending score, what follows the items scoring at least \<open>k\<close> scores less.\<close>

lemma dropWhile_below:
  "sorted_wrt (\<lambda>x y. GetRating y \<le> GetRating x) s \<Longrightarrow>
   v \<in> set (dropWhile (\<lambda>v. k \<le> GetRating v) s) \<Longrightarrow> GetRating v < k"
proof (induction s)
  case Nil
  then show ?case by simp
next
  case (Cons a s)
  show ?case
  proof (cases "k \<le> GetRating a")
    case True
    with Cons show ?thesis by simp
  next
    case False
    with Cons.prems show ?thesis by auto
  qed
qed

text \<open>An offer keeps the slice sorted by descending score.\<close>

lemma TryPush_sorted:
  assumes "sorted_wrt (\<lambda>x y. GetRating y \<le> GetRating x) (slice_r r)"
    and "TryPush r item = Some (ok, r')"
  shows "sorted_wrt (\<lambda>x y. GetRating y \<le> GetRating x) (slice_r r')"
proof -
  define ahead where "ahead = takeWhile (\<lambda>v. GetRating item \<le> GetRating v) (slice_r r)"
  define behind where "behind = dropWhile (\<lambda>v. GetRating item \<le> GetRating v) (slice_r r)"
  have "sorted_wrt (\<lambda>x y. GetRating y \<le> GetRating x) (ahead @ behind)"
    using assms(1) by (simp add: ahead_def behind_def)
  then have tw: "sorted_wrt (\<lambda>x y. GetRating y \<le> GetRating x) ahead"
    and dw: "sorted_wrt (\<lambda>x y. GetRating y \<le> GetRating x) behind"
    and cross: "\<forall>x\<in>set ahead. \<forall>y\<in>set behind. GetRating y \<le> GetRating x"
    unfolding sorted_wrt_append by blast+
  have above: "\<forall>v\<in>set ahead. GetRating item \<le> GetRating v"
    unfolding ahead_def by (auto dest: set_takeWhileD)
  have below: "\<forall>v\<in>set behind. GetRating v \<le> GetRating item"
    unfolding behind_def using dropWhile_below[OF assms(1)] by (meson less_imp_le)
  have tail: "sorted_wrt (\<lambda>x y. GetRating y \<le> GetRating x) (item # behind)"
    using dw below by simp
  have "\<forall>x\<in>set ahead. \<forall>y\<in>set (item # behind). GetRating y \<le> GetRating x"
    using above cross by simp
  with tw tail have "sorted_wrt (\<lambda>x y. GetRating y \<le> GetRating x) (ahead @ item # behind)"
    unfolding sorted_wrt_append by blast
  then have ins: "sorted_wrt (\<lambda>x y. GetRating y \<le> GetRating x)
      (take (size_r r) (ahead @ item # behind))"
    by (rule sorted_wrt_take)
  have "slice_r r' = [item] \<or> slice_r r' = slice_r r \<or>
      slice_r r' = take (size_r r) (ahead @ item # behind)"
    using assms(2) unfolding TryPush_char ahead_def behind_def by (auto split: if_splits)
  then show ?thesis
    using ins assms(1) by auto
qed

text \<open>
  An offer keeps the capacity, and keeps the slice within it, but for the one item that an
  empty Rating of capacity 0 takes.
\<close>

lemma TryPush_length:
  assumes "length (slice_r r) \<le> max 1 (size_r r)"
    and "TryPush r item = Some (ok, r')"
  shows "length (slice_r r') \<le> max 1 (size_r r') \<and> size_r r' = size_r r"
proof -
  have "r' = r\<lparr>slice_r := [item]\<rparr> \<or> r' = r \<or>
      r' = r\<lparr>slice_r := take (size_r r)
              (takeWhile (\<lambda>v. GetRating item \<le> GetRating v) (slice_r r)
                   @ item # dropWhile (\<lambda>v. GetRating item \<le> GetRating v) (slice_r r))\<rparr>"
    using assms(2) unfolding TryPush_char by (simp split: if_splits)
  then show ?thesis
    using assms(1) by auto
qed

text \<open>A run of offers never panics and keeps both.\<close>

lemma TryPush_all_invariants:
  "sorted_wrt (\<lambda>x y. GetRating y \<le> GetRating x) (slice_r r) \<Longrightarrow>
   length (slice_r r) \<le> max 1 (size_r r) \<Longrightarrow>
   \<exists>r'. TryPush_all r items = Some r' \<and>
     sorted_wrt (\<lambda>x y. GetRating y \<le> GetRating x) (slice_r r') \<and>
     length (slice_r r') \<le> max 1 (size_r r') \<and> size_r r' = size_r r"
proof (induction items arbitrary: r)
  case Nil
  then show ?case by simp
next
  case (Cons item items)
  obtain x where "TryPush r item = Some x"
    using TryPush_char by blast
  then obtain ok r1 where r1: "TryPush r item = Some (ok, r1)"
    by (cases x) simp
  have s1: "sorted_wrt (\<lambda>x y. GetRating y \<le> GetRating x) (slice_r r1)"
    using TryPush_sorted[OF Cons.prems(1) r1] .
  have l1: "length (slice_r r1) \<le> max 1 (size_r r1)" "size_r r1 = size_r r"
    using TryPush_length[OF Cons.prems(2) r1] by blast+
  from Cons.IH[OF s1 l1(1)] l1(2) r1 show ?case by simp
qed

text \<open>
  Claim C3. The claim has the slice equal the true top-K of all the items offered. On the
  specification's own scenario, scores 5, 3, 3, 8, 1 offered to a Rating of capacity 3,
  the code ends with the two items of scores 8 and 5: each 3 and the 1 were turned down
  while the Rating was not full. The top 3 are 8, 5 and the first 3.
\<close>

theorem TryPush_all_misses_topK:
  "NewRating 3 = Some \<lparr>slice_r = [], size_r = 3\<rparr> \<and>
   TryPush_all \<lparr>slice_r = [], size_r = 3\<rparr>
     [OfCommitRatableRepo \<lparr>CRR_ID = ''a'', CRR_Name = ''a'', CRR_Commits = 5\<rparr>,
      OfCommitRatableRepo \<lparr>CRR_ID = ''b'', CRR_Name = ''b'', CRR_Commits = 3\<rparr>,
      OfCommitRatableRepo \<lparr>CRR_ID = ''c'', CRR_Name = ''c'', CRR_Commits = 3\<rparr>,
      OfCommitRatableRepo \<lparr>CRR_ID = ''d'', CRR_Name = ''d'', CRR_Commits = 8\<rparr>,
      OfCommitRatableRepo \<lparr>CRR_ID = ''e'', CRR_Name = ''e'', CRR_Commits = 1\<rparr>] =
   Some \<lparr>slice_r =
     [OfCommitRatableRepo \<lparr>CRR_ID = ''d'', CRR_Name = ''d'', CRR_Commits = 8\<rparr>,
      OfCommitRatableRepo \<lparr>CRR_ID = ''a'', CRR_Name = ''a'', CRR_Commits = 5\<rparr>],
     size_r = 3\<rparr> \<and>
   spec_topK 3
     [OfCommitRatableRepo \<lparr>CRR_ID = ''a'', CRR_Name = ''a'', CRR_Commits = 5\<rparr>,
      OfCommitRatableRepo \<lparr>CRR_ID = ''b'', CRR_Name = ''b'', CRR_Commits = 3\<rparr>,
      OfCommitRatableRepo \<lparr>CRR_ID = ''c'', CRR_Name = ''c'', CRR_Commits = 3\<rparr>,
      OfCommitRatableRepo \<lparr>CRR_ID = ''d'', CRR_Name = ''d'', CRR_Commits = 8\<rparr>,
      OfCommitRatableRepo \<lparr>CRR_ID = ''e'', CRR_Name = ''e'', CRR_Commits = 1\<rparr>] =
     [OfCommitRatableRepo \<lparr>CRR_ID = ''d'', CRR_Name = ''d'', CRR_Commits = 8\<rparr>,
      OfCommitRatableRepo \<lparr>CRR_ID = ''a'', CRR_Name = ''a'', CRR_Commits = 5\<rparr>,
      OfCommitRatableRepo \<lparr>CRR_ID = ''b'', CRR_Name = ''b'', CRR_Commits = 3\<rparr>]"
  by (simp add: NewRating_def TryPush_def float64_small insert_slice_def spec_topK_def)

section \<open>Aggregation\<close>

subsection \<open>Decoding a well-formed record, counting commits\<close>

lemma NewCommitFromCSV_row [simp]: "NewCommitFromCSV (Commit_row c) = Inr c"
  by (simp add: NewCommitFromCSV_def Commit_row_def)

lemma NewEventFromCSV_row [simp]: "NewEventFromCSV (Event_row e) = Inr e"
  by (simp add: NewEventFromCSV_def Event_row_def)

text \<open>
  On a commit table that reads without error, the loop adds to its counter the number of
  records whose event id is the one asked for (in 64-bit arithmetic).
\<close>

lemma countCommitsByEvent_loop_rows:
  "countCommitsByEvent_loop eventID (map (Inr \<circ> Commit_row) cs) True n =
     Inr (n + of_nat (length (filter (\<lambda>c. Commit_EventID c = eventID) cs)))"
  by (induction cs arbitrary: n) (simp_all add: add.assoc add.commute)

lemma countCommitsByEvent_table:
  "commitsFile a = csv_table header (map Commit_row cs) \<Longrightarrow>
   countCommitsByEvent a eventID =
     Inr (of_nat (length (filter (\<lambda>c. Commit_EventID c = eventID) cs)))"
  by (simp add: countCommitsByEvent_def csv_table_def countCommitsByEvent_loop_rows)

lemma eventType_distinct [simp]:
  "eventTypePush \<noteq> eventTypePullRequest" "eventTypePush \<noteq> eventTypeWatch"
  "eventTypePullRequest \<noteq> eventTypeWatch" "eventTypePullRequest \<noteq> eventTypePush"
  "eventTypeWatch \<noteq> eventTypePush" "eventTypeWatch \<noteq> eventTypePullRequest"
  by (simp_all add: eventTypePush_def eventTypePullRequest_def eventTypeWatch_def)

text \<open>
  Evaluation of the two strategies on concrete tables unfolds these definitions.
\<close>

lemmas eval_defs = SpaceOptimizedRatings_def PerformanceOptimizedRatings_def
  rateUsersByPRsAndCommitsSpaceOptimized_def rateReposByCommitsAndWatchesSpaceOptimized_def
  NewRating_def csv_table_def NewUserFromCSV_def NewRepoFromCSV_def NewEventFromCSV_def
  NewCommitFromCSV_def countUserRating_def countRepoRating_def countCommitsByEvent_def
  countUserRating_event_def countRepoRating_event_def PO_event_def PO_events_def
  fillUsernames_def fillRepoNames_def range_values_def TryPush_def
  eventTypePush_def eventTypePullRequest_def eventTypeWatch_def

subsection \<open>One event in the single-pass strategy\<close>

text \<open>
  Replacing an entry of a stats map replaces the counters read at its key.
\<close>

lemma stats_upd:
  "userCommits (users(k \<mapsto> x)) = (userCommits users)(k := RU_Commits x)"
  "userPREvents (users(k \<mapsto> x)) = (userPREvents users)(k := RU_PREvents x)"
  "repoCommits (repos(k \<mapsto> y)) = (repoCommits repos)(k := RCW_Commits y)"
  "repoWatchEvents (repos(k \<mapsto> y)) = (repoWatchEvents repos)(k := RCW_WatchEvents y)"
  by (auto simp: userCommits_def userPREvents_def repoCommits_def repoWatchEvents_def fun_eq_iff)

text \<open>
  The result of the switch by event type: an entry is created with the contribution, or
  the contribution is added to the entry there is.
\<close>

lemma PO_event_Push_eq:
  assumes "Event_Type e = eventTypePush" and "countCommitsByEvent a (Event_ID e) = Inr n"
  shows "PO_event a e users repos =
     Inr (users(Event_ActorID e \<mapsto>
            (case users (Event_ActorID e) of
               None \<Rightarrow> \<lparr>RU_ID = Event_ActorID e, RU_Username = [], RU_Commits = n, RU_PREvents = 0\<rparr>
             | Some user \<Rightarrow> user\<lparr>RU_Commits := RU_Commits user + n\<rparr>)),
          repos(Event_RepoID e \<mapsto>
            (case repos (Event_RepoID e) of
               None \<Rightarrow> \<lparr>RCW_ID = Event_RepoID e, RCW_Name = [], RCW_Commits = n, RCW_WatchEvents = 0\<rparr>
             | Some repo \<Rightarrow> repo\<lparr>RCW_Commits := RCW_Commits repo + n\<rparr>)))"
  using assms by (simp add: PO_event_def split: option.splits)

lemma PO_event_PullRequest_eq:
  assumes "Event_Type e = eventTypePullRequest"
  shows "PO_event a e users repos =
     Inr (users(Event_ActorID e \<mapsto>
            (case users (Event_ActorID e) of
               None \<Rightarrow> \<lparr>RU_ID = Event_ActorID e, RU_Username = [], RU_Commits = 0, RU_PREvents = 1\<rparr>
             | Some user \<Rightarrow> user\<lparr>RU_PREvents := RU_PREvents user + 1\<rparr>)),
          repos)"
  using assms by (simp add: PO_event_def split: option.splits)

lemma PO_event_Watch_eq:
  assumes "Event_Type e = eventTypeWatch"
  shows "PO_event a e users repos =
     Inr (users,
          repos(Event_RepoID e \<mapsto>
            (case repos (Event_RepoID e) of
               None \<Rightarrow> \<lparr>RCW_ID = Event_RepoID e, RCW_Name = [], RCW_Commits = 0, RCW_WatchEvents = 1\<rparr>
             | Some repo \<Rightarrow> repo\<lparr>RCW_WatchEvents := RCW_WatchEvents repo + 1\<rparr>)))"
  using assms by (simp add: PO_event_def split: option.splits)

lemma PO_event_other:
  assumes "\<not> relevant_event e"
  shows "PO_event a e users repos = Inr (users, repos)"
  using assms by (simp add: PO_event_def relevant_event_def)

lemma PO_event_Push_frame:
  assumes "Event_Type e = eventTypePush" and "countCommitsByEvent a (Event_ID e) = Inr n"
  shows "\<exists>users' repos'. PO_event a e users repos = Inr (users', repos') \<and>
     userCommits users' = (userCommits users)
        (Event_ActorID e := userCommits users (Event_ActorID e) + n) \<and>
     userPREvents users' = userPREvents users \<and>
     (\<forall>k. k \<noteq> Event_ActorID e \<longrightarrow> users' k = users k) \<and>
     repoCommits repos' = (repoCommits repos)
        (Event_RepoID e := repoCommits repos (Event_RepoID e) + n) \<and>
     repoWatchEvents repos' = repoWatchEvents repos \<and>
     (\<forall>k. k \<noteq> Event_RepoID e \<longrightarrow> repos' k = repos k)"
  unfolding PO_event_Push_eq[OF assms]
  by (simp add: stats_upd)
     (auto simp: userCommits_def userPREvents_def repoCommits_def repoWatchEvents_def
        fun_eq_iff split: option.splits)

lemma PO_event_PullRequest_frame:
  assumes "Event_Type e = eventTypePullRequest"
  shows "\<exists>users'. PO_event a e users repos = Inr (users', repos) \<and>
     userCommits users' = userCommits users \<and>
     userPREvents users' = (userPREvents users)
        (Event_ActorID e := userPREvents users (Event_ActorID e) + 1) \<and>
     (\<forall>k. k \<noteq> Event_ActorID e \<longrightarrow> users' k = users k)"
  unfolding PO_event_PullRequest_eq[OF assms]
  by (simp add: stats_upd)
     (auto simp: userCommits_def userPREvents_def fun_eq_iff split: option.splits)

lemma PO_event_Watch_frame:
  assumes "Event_Type e = eventTypeWatch"
  shows "\<exists>repos'. PO_event a e users repos = Inr (users, repos') \<and>
     repoCommits repos' = repoCommits repos \<and>
     repoWatchEvents repos' = (repoWatchEvents repos)
        (Event_RepoID e := repoWatchEvents repos (Event_RepoID e) + 1) \<and>
     (\<forall>k. k \<noteq> Event_RepoID e \<longrightarrow> repos' k = repos k)"
  unfolding PO_event_Watch_eq[OF assms]
  by (simp add: stats_upd)
     (auto simp: repoCommits_def repoWatchEvents_def fun_eq_iff split: option.splits)

subsection \<open>One event in the space-optimized strategy\<close>

lemma countUserRating_event_cases:
  "(Event_ActorID e = userID \<and> Event_Type e = eventTypePush \<and>
      countCommitsByEvent a (Event_ID e) = Inr n \<longrightarrow>
      countUserRating_event a userID e tc tp = Inr (tc + n, tp)) \<and>
   (Event_ActorID e = userID \<and> Event_Type e = eventTypePullRequest \<longrightarrow>
      countUserRating_event a userID e tc tp = Inr (tc, tp + 1)) \<and>
   (Event_ActorID e \<noteq> userID \<or>
      (Event_Type e \<noteq> eventTypePush \<and> Event_Type e \<noteq> eventTypePullRequest) \<longrightarrow>
      countUserRating_event a userID e tc tp = Inr (tc, tp))"
  by (auto simp: countUserRating_event_def)

lemma countRepoRating_event_cases:
  "(Event_RepoID e = repoID \<and> Event_Type e = eventTypePush \<and>
      countCommitsByEvent a (Event_ID e) = Inr n \<longrightarrow>
      countRepoRating_event a repoID e cp we = Inr (cp + n, we)) \<and>
   (Event_RepoID e = repoID \<and> Event_Type e = eventTypeWatch \<longrightarrow>
      countRepoRating_event a repoID e cp we = Inr (cp, we + 1)) \<and>
   (Event_RepoID e \<noteq> repoID \<or>
      (Event_Type e \<noteq> eventTypePush \<and> Event_Type e \<noteq> eventTypeWatch) \<longrightarrow>
      countRepoRating_event a repoID e cp we = Inr (cp, we))"
  by (auto simp: countRepoRating_event_def)

subsection \<open>The read loops over the event table\<close>

text \<open>
  The totals that \<^verbatim>\<open>countUserRating\<close> reaches for an id follow the counters the
  single pass holds for that id, event by event.
\<close>

lemma step_agree_user:
  "PO_event a e users repos = Inr (users1, repos1) \<Longrightarrow>
   countUserRating_event a u e (userCommits users u) (userPREvents users u) =
     Inr (userCommits users1 u, userPREvents users1 u)"
  by (auto simp: PO_event_def countUserRating_event_def userCommits_def userPREvents_def
      split: if_splits sum.splits option.splits)

lemma step_agree_repo:
  "PO_event a e users repos = Inr (users1, repos1) \<Longrightarrow>
   countRepoRating_event a r e (repoCommits repos r) (repoWatchEvents repos r) =
     Inr (repoCommits repos1 r, repoWatchEvents repos1 r)"
  by (auto simp: PO_event_def countRepoRating_event_def repoCommits_def repoWatchEvents_def
      split: if_splits sum.splits option.splits)

lemma loop_agree_user:
  "PO_events_loop a rows h users repos = Returned (users', repos') \<Longrightarrow>
   countUserRating_loop a u rows h (userCommits users u) (userPREvents users u) =
     Inr (userCommits users' u, userPREvents users' u)"
proof (induction a rows h users repos rule: PO_events_loop.induct)
  case (1 a wasHeaderRead users repos)
  then show ?case by simp
next
  case (2 a err rest wasHeaderRead users repos)
  then show ?case by simp
next
  case (3 a rcd rest wasHeaderRead users repos)
  show ?case
  proof (cases wasHeaderRead)
    case False
    with 3 show ?thesis by simp
  next
    case True
    show ?thesis
    proof (cases "NewEventFromCSV rcd")
      case (Inl err)
      with 3(3) True show ?thesis by simp
    next
      case (Inr event)
      show ?thesis
      proof (cases "PO_event a event users repos")
        case (Inl err)
        with 3(3) True Inr show ?thesis by simp
      next
        case step: (Inr p)
        obtain users1 repos1 where p: "p = (users1, repos1)" by (cases p)
        have rest: "PO_events_loop a rest True users1 repos1 = Returned (users', repos')"
          using 3(3) True Inr step p by simp
        have "countUserRating_loop a u rest True (userCommits users1 u) (userPREvents users1 u) =
            Inr (userCommits users' u, userPREvents users' u)"
          using 3(2)[OF _ Inr _ _ rest] True step p by simp
        then show ?thesis
          using True Inr step_agree_user[of a event users repos users1 repos1 u] step p
          by simp
      qed
    qed
  qed
qed

lemma loop_agree_repo:
  "PO_events_loop a rows h users repos = Returned (users', repos') \<Longrightarrow>
   countRepoRating_loop a r rows h (repoCommits repos r) (repoWatchEvents repos r) =
     Inr (repoCommits repos' r, repoWatchEvents repos' r)"
proof (induction a rows h users repos rule: PO_events_loop.induct)
  case (1 a wasHeaderRead users repos)
  then show ?case by simp
next
  case (2 a err rest wasHeaderRead users repos)
  then show ?case by simp
next
  case (3 a rcd rest wasHeaderRead users repos)
  show ?case
  proof (cases wasHeaderRead)
    case False
    with 3 show ?thesis by simp
  next
    case True
    show ?thesis
    proof (cases "NewEventFromCSV rcd")
      case (Inl err)
      with 3(3) True show ?thesis by simp
    next
      case (Inr event)
      show ?thesis
      proof (cases "PO_event a event users repos")
        case (Inl err)
        with 3(3) True Inr show ?thesis by simp
      next
        case step: (Inr p)
        obtain users1 repos1 where p: "p = (users1, repos1)" by (cases p)
        have rest: "PO_events_loop a rest True users1 repos1 = Returned (users', repos')"
          using 3(3) True Inr step p by simp
        have "countRepoRating_loop a r rest True (repoCommits repos1 r) (repoWatchEvents repos1 r) =
            Inr (repoCommits repos' r, repoWatchEvents repos' r)"
          using 3(2)[OF _ Inr _ _ rest] True step p by simp
        then show ?thesis
          using True Inr step_agree_repo[of a event users repos users1 repos1 r] step p
          by simp
      qed
    qed
  qed
qed

lemma pushedCommits_simps:
  "pushedCommits cs [] = 0"
  "pushedCommits cs (e # es) =
     (if Event_Type e = eventTypePush
      then of_nat (length (filter (\<lambda>c. Commit_EventID c = Event_ID e) cs)) + pushedCommits cs es
      else pushedCommits cs es)"
  by (simp_all add: pushedCommits_def)

text \<open>
  With a commit table that reads without error, the loop of \<^verbatim>\<open>countUserRating\<close> over
  the records of a list of events adds to its totals the commits pushed by the events of
  the user and the number of the user's PullRequest events; the loop of
  \<^verbatim>\<open>countRepoRating\<close> does the same with the repo's pushes and Watch events.
\<close>

lemma countUserRating_loop_rows:
  assumes "commitsFile a = csv_table header (map Commit_row cs)"
  shows "countUserRating_loop a u (map (Inr \<circ> Event_row) es) True tc tp =
     Inr (tc + pushedCommits cs (filter (\<lambda>e. Event_ActorID e = u) es),
          tp + of_nat (length (filter
                 (\<lambda>e. Event_Type e = eventTypePullRequest \<and> Event_ActorID e = u) es)))"
proof (induction es arbitrary: tc tp)
  case Nil
  then show ?case by (simp add: pushedCommits_simps)
next
  case (Cons e es)
  show ?case
    by (simp add: Cons.IH[unfolded comp_def] comp_def countUserRating_event_def
        countCommitsByEvent_table[OF assms] pushedCommits_simps add.assoc)
qed

lemma countRepoRating_loop_rows:
  assumes "commitsFile a = csv_table header (map Commit_row cs)"
  shows "countRepoRating_loop a r (map (Inr \<circ> Event_row) es) True cp we =
     Inr (cp + pushedCommits cs (filter (\<lambda>e. Event_RepoID e = r) es),
          we + of_nat (length (filter
                 (\<lambda>e. Event_Type e = eventTypeWatch \<and> Event_RepoID e = r) es)))"
proof (induction es arbitrary: cp we)
  case Nil
  then show ?case by (simp add: pushedCommits_simps)
next
  case (Cons e es)
  show ?case
    by (simp add: Cons.IH[unfolded comp_def] comp_def countRepoRating_event_def
        countCommitsByEvent_table[OF assms] pushedCommits_simps add.assoc)
qed

text \<open>With such a commit table the single pass over a list of events returns.\<close>

lemma PO_event_returns:
  "countCommitsByEvent a (Event_ID e) = Inr n \<Longrightarrow> \<exists>p. PO_event a e users repos = Inr p"
  by (simp add: PO_event_def)

lemma PO_events_loop_returns:
  assumes "commitsFile a = csv_table header (map Commit_row cs)"
  shows "\<exists>users' repos'.
     PO_events_loop a (map (Inr \<circ> Event_row) es) True users repos = Returned (users', repos')"
proof (induction es arbitrary: users repos)
  case Nil
  then show ?case by simp
next
  case (Cons e es)
  obtain p where "PO_event a e users repos = Inr p"
    using PO_event_returns[OF countCommitsByEvent_table[OF assms]] by blast
  moreover obtain users1 repos1 where "p = (users1, repos1)" by (cases p)
  ultimately show ?case
    using Cons.IH[of users1 repos1] by (simp add: comp_def)
qed

text \<open>
  The totals of a whole aggregation over well-formed tables, in both strategies: every
  Push event has added its commit count to its actor and to its repo, every PullRequest
  event 1 to its actor, every Watch event 1 to its repo, and nothing else has been added.
\<close>

lemma aggregation_totals:
  assumes c: "commitsFile a = csv_table header (map Commit_row cs)"
    and e: "eventsFile a = csv_table eheader (map Event_row es)"
  shows "(\<exists>users repos. PO_events a = Returned (users, repos) \<and>
      (\<forall>u. userCommits users u = pushedCommits cs (filter (\<lambda>e. Event_ActorID e = u) es) \<and>
           userPREvents users u = of_nat (length (filter
             (\<lambda>e. Event_Type e = eventTypePullRequest \<and> Event_ActorID e = u) es))) \<and>
      (\<forall>r. repoCommits repos r = pushedCommits cs (filter (\<lambda>e. Event_RepoID e = r) es) \<and>
           repoWatchEvents repos r = of_nat (length (filter
             (\<lambda>e. Event_Type e = eventTypeWatch \<and> Event_RepoID e = r) es)))) \<and>
   countUserRating a userID =
     Inr (pushedCommits cs (filter (\<lambda>e. Event_ActorID e = userID) es),
          of_nat (length (filter
             (\<lambda>e. Event_Type e = eventTypePullRequest \<and> Event_ActorID e = userID) es))) \<and>
   countRepoRating a repoID =
     Inr (pushedCommits cs (filter (\<lambda>e. Event_RepoID e = repoID) es),
          of_nat (length (filter
             (\<lambda>e. Event_Type e = eventTypeWatch \<and> Event_RepoID e = repoID) es)))"
proof -
  obtain users repos where
    loop: "PO_events_loop a (map (Inr \<circ> Event_row) es) True Map.empty Map.empty =
      Returned (users, repos)"
    using PO_events_loop_returns[OF c] by blast
  have po: "PO_events a = Returned (users, repos)"
    using e loop by (simp add: PO_events_def csv_table_def)
  have u: "userCommits users u = pushedCommits cs (filter (\<lambda>e. Event_ActorID e = u) es) \<and>
           userPREvents users u = of_nat (length (filter
             (\<lambda>e. Event_Type e = eventTypePullRequest \<and> Event_ActorID e = u) es))" for u
    using loop_agree_user[OF loop, of u] countUserRating_loop_rows[OF c, of u es 0 0]
    by (simp add: userCommits_def userPREvents_def)
  have r: "repoCommits repos r = pushedCommits cs (filter (\<lambda>e. Event_RepoID e = r) es) \<and>
           repoWatchEvents repos r = of_nat (length (filter
             (\<lambda>e. Event_Type e = eventTypeWatch \<and> Event_RepoID e = r) es))" for r
    using loop_agree_repo[OF loop, of r] countRepoRating_loop_rows[OF c, of r es 0 0]
    by (simp add: repoCommits_def repoWatchEvents_def)
  have cu: "countUserRating a userID =
     Inr (pushedCommits cs (filter (\<lambda>e. Event_ActorID e = userID) es),
          of_nat (length (filter
             (\<lambda>e. Event_Type e = eventTypePullRequest \<and> Event_ActorID e = userID) es)))"
    using e countUserRating_loop_rows[OF c, of userID es 0 0]
    by (simp add: countUserRating_def csv_table_def)
  have cr: "countRepoRating a repoID =
     Inr (pushedCommits cs (filter (\<lambda>e. Event_RepoID e = repoID) es),
          of_nat (length (filter
             (\<lambda>e. Event_Type e = eventTypeWatch \<and> Event_RepoID e = repoID) es)))"
    using e countRepoRating_loop_rows[OF c, of repoID es 0 0]
    by (simp add: countRepoRating_def csv_table_def)
  show ?thesis
    using po u r cu cr by blast
qed

text \<open>
  Each record of the event table that a loop reads after the header goes through the
  loop's switch, and the loop goes on from what the switch returns.
\<close>

lemma loops_step:
  "PO_events_loop a (Inr (Event_row e) # rest) True users repos =
     (case PO_event a e users repos of
        Inl err \<Rightarrow> Failed err
      | Inr (users', repos') \<Rightarrow> PO_events_loop a rest True users' repos')"
  "countUserRating_loop a userID (Inr (Event_row e) # rest) True tc tp =
     (case countUserRating_event a userID e tc tp of
        Inl err \<Rightarrow> Inl err
      | Inr (tc', tp') \<Rightarrow> countUserRating_loop a userID rest True tc' tp')"
  "countRepoRating_loop a repoID (Inr (Event_row e) # rest) True cp we =
     (case countRepoRating_event a repoID e cp we of
        Inl err \<Rightarrow> Inl err
      | Inr (cp', we') \<Rightarrow> countRepoRating_loop a repoID rest True cp' we')"
  by simp_all

text \<open>
  Claim C5. What the events contribute during aggregation. The commit count of an event
  is the number of records of the commit table that carry its id. In the single-pass
  strategy a Push event adds that count to the commits of its actor and to the commits of
  its repo and leaves every other counter and entry as it was; a PullRequest event adds 1
  to the pullRequestEvents of its actor and touches nothing else; a Watch event adds 1 to
  the watchEvents of its repo and touches nothing else; an event of any other type changes
  nothing. In the space-optimized strategy the running totals of a user (of a repo) change
  in the same way for the events of that user (that repo) and not at all for the others.
  Every record read after the header goes through this switch, and so, over well-formed
  event and commit tables, both strategies end with exactly these contributions summed
  up: for each id the commits of its Push events and the number of its PullRequest (for
  a repo, Watch) events.
\<close>

theorem event_contributions:
  "(commitsFile a = csv_table header (map Commit_row cs) \<longrightarrow>
      countCommitsByEvent a eventID =
        Inr (of_nat (length (filter (\<lambda>c. Commit_EventID c = eventID) cs)))) \<and>
   (Event_Type e = eventTypePush \<and> countCommitsByEvent a (Event_ID e) = Inr n \<longrightarrow>
      (\<exists>users' repos'. PO_event a e users repos = Inr (users', repos') \<and>
         userCommits users' = (userCommits users)
            (Event_ActorID e := userCommits users (Event_ActorID e) + n) \<and>
         userPREvents users' = userPREvents users \<and>
         (\<forall>k. k \<noteq> Event_ActorID e \<longrightarrow> users' k = users k) \<and>
         repoCommits repos' = (repoCommits repos)
            (Event_RepoID e := repoCommits repos (Event_RepoID e) + n) \<and>
         repoWatchEvents repos' = repoWatchEvents repos \<and>
         (\<forall>k. k \<noteq> Event_RepoID e \<longrightarrow> repos' k = repos k))) \<and>
   (Event_Type e = eventTypePullRequest \<longrightarrow>
      (\<exists>users'. PO_event a e users repos = Inr (users', repos) \<and>
         userCommits users' = userCommits users \<and>
         userPREvents users' = (userPREvents users)
            (Event_ActorID e := userPREvents users (Event_ActorID e) + 1) \<and>
         (\<forall>k. k \<noteq> Event_ActorID e \<longrightarrow> users' k = users k))) \<and>
   (Event_Type e = eventTypeWatch \<longrightarrow>
      (\<exists>repos'. PO_event a e users repos = Inr (users, repos') \<and>
         repoCommits repos' = repoCommits repos \<and>
         repoWatchEvents repos' = (repoWatchEvents repos)
            (Event_RepoID e := repoWatchEvents repos (Event_RepoID e) + 1) \<and>
         (\<forall>k. k \<noteq> Event_RepoID e \<longrightarrow> repos' k = repos k))) \<and>
   (\<not> relevant_event e \<longrightarrow> PO_event a e users repos = Inr (users, repos)) \<and>
   (Event_ActorID e = userID \<and> Event_Type e = eventTypePush \<and>
      countCommitsByEvent a (Event_ID e) = Inr n \<longrightarrow>
      countUserRating_event a userID e tc tp = Inr (tc + n, tp)) \<and>
   (Event_ActorID e = userID \<and> Event_Type e = eventTypePullRequest \<longrightarrow>
      countUserRating_event a userID e tc tp = Inr (tc, tp + 1)) \<and>
   (Event_ActorID e \<noteq> userID \<or>
      (Event_Type e \<noteq> eventTypePush \<and> Event_Type e \<noteq> eventTypePullRequest) \<longrightarrow>
      countUserRating_event a userID e tc tp = Inr (tc, tp)) \<and>
   (Event_RepoID e = repoID \<and> Event_Type e = eventTypePush \<and>
      countCommitsByEvent a (Event_ID e) = Inr n \<longrightarrow>
      countRepoRating_event a repoID e cp we = Inr (cp + n, we)) \<and>
   (Event_RepoID e = repoID \<and> Event_Type e = eventTypeWatch \<longrightarrow>
      countRepoRating_event a repoID e cp we = Inr (cp, we + 1)) \<and>
   (Event_RepoID e \<noteq> repoID \<or>
      (Event_Type e \<noteq> eventTypePush \<and> Event_Type e \<noteq> eventTypeWatch) \<longrightarrow>
      countRepoRating_event a repoID e cp we = Inr (cp, we)) \<and>
   PO_events_loop a (Inr (Event_row e) # rest) True users repos =
     (case PO_event a e users repos of
        Inl err \<Rightarrow> Failed err
      | Inr (users', repos') \<Rightarrow> PO_events_loop a rest True users' repos') \<and>
   countUserRating_loop a userID (Inr (Event_row e) # rest) True tc tp =
     (case countUserRating_event a userID e tc tp of
        Inl err \<Rightarrow> Inl err
      | Inr (tc', tp') \<Rightarrow> countUserRating_loop a userID rest True tc' tp') \<and>
   countRepoRating_loop a repoID (Inr (Event_row e) # rest) True cp we =
     (case countRepoRating_event a repoID e cp we of
        Inl err \<Rightarrow> Inl err
      | Inr (cp', we') \<Rightarrow> countRepoRating_loop a repoID rest True cp' we') \<and>
   (commitsFile a = csv_table header (map Commit_row cs) \<and>
    eventsFile a = csv_table eheader (map Event_row es) \<longrightarrow>
      (\<exists>users repos. PO_events a = Returned (users, repos) \<and>
         (\<forall>u. userCommits users u =
                pushedCommits cs (filter (\<lambda>e. Event_ActorID e = u) es) \<and>
              userPREvents users u = of_nat (length (filter
                (\<lambda>e. Event_Type e = eventTypePullRequest \<and> Event_ActorID e = u) es))) \<and>
         (\<forall>r. repoCommits repos r =
                pushedCommits cs (filter (\<lambda>e. Event_RepoID e = r) es) \<and>
              repoWatchEvents repos r = of_nat (length (filter
                (\<lambda>e. Event_Type e = eventTypeWatch \<and> Event_RepoID e = r) es)))) \<and>
      countUserRating a userID =
        Inr (pushedCommits cs (filter (\<lambda>e. Event_ActorID e = userID) es),
             of_nat (length (filter
               (\<lambda>e. Event_Type e = eventTypePullRequest \<and> Event_ActorID e = userID) es))) \<and>
      countRepoRating a repoID =
        Inr (pushedCommits cs (filter (\<lambda>e. Event_RepoID e = repoID) es),
             of_nat (length (filter
               (\<lambda>e. Event_Type e = eventTypeWatch \<and> Event_RepoID e = repoID) es))))"
proof -
  have count: "commitsFile a = csv_table header (map Commit_row cs) \<longrightarrow>
      countCommitsByEvent a eventID =
        Inr (of_nat (length (filter (\<lambda>c. Commit_EventID c = eventID) cs)))"
    using countCommitsByEvent_table by blast
  note push = PO_event_Push_frame[of e a n users repos]
  note pr = PO_event_PullRequest_frame[of e a users repos]
  note watch = PO_event_Watch_frame[of e a users repos]
  note other = PO_event_other[of e a users repos]
  note user = countUserRating_event_cases[of e userID a n tc tp]
  note repo = countRepoRating_event_cases[of e repoID a n cp we]
  show ?thesis
    apply (intro conjI)
    subgoal by (rule count)
    subgoal using push by blast
    subgoal using pr by blast
    subgoal using watch by blast
    subgoal using other by blast
    subgoal using user by blast
    subgoal using user by blast
    subgoal using user by blast
    subgoal using repo by blast
    subgoal using repo by blast
    subgoal using repo by blast
    subgoal by (rule loops_step)
    subgoal by (rule loops_step)
    subgoal by (rule loops_step)
    subgoal using aggregation_totals[of a header cs eheader es userID repoID] by blast
    done
qed

theorem event_contributions_witness:
  "commitsFile
     \<lparr>actorsFile = Inr [],
      commitsFile = csv_table [''sha'', ''message'', ''event_id'']
        [[''h1'', ''m'', ''e1''], [''h2'', ''m'', ''e5''], [''h3'', ''m'', ''e1'']],
      eventsFile = csv_table [''id'', ''type'', ''actor_id'', ''repo_id'']
        [[''e1'', ''PushEvent'', ''u1'', ''r1''], [''e2'', ''PullRequestEvent'', ''u1'', ''r1''],
         [''e3'', ''WatchEvent'', ''u2'', ''r1''], [''e4'', ''ForkEvent'', ''u1'', ''r2'']],
      reposFile = Inr []\<rparr> =
     csv_table [''sha'', ''message'', ''event_id'']
       (map Commit_row
         [\<lparr>Commit_Hash = ''h1'', Commit_Message = ''m'', Commit_EventID = ''e1''\<rparr>,
      \<lparr>Commit_Hash = ''h2'', Commit_Message = ''m'', Commit_EventID = ''e5''\<rparr>,
      \<lparr>Commit_Hash = ''h3'', Commit_Message = ''m'', Commit_EventID = ''e1''\<rparr>]) \<and>
   eventsFile
     \<lparr>actorsFile = Inr [],
      commitsFile = csv_table [''sha'', ''message'', ''event_id'']
        [[''h1'', ''m'', ''e1''], [''h2'', ''m'', ''e5''], [''h3'', ''m'', ''e1'']],
      eventsFile = csv_table [''id'', ''type'', ''actor_id'', ''repo_id'']
        [[''e1'', ''PushEvent'', ''u1'', ''r1''], [''e2'', ''PullRequestEvent'', ''u1'', ''r1''],
         [''e3'', ''WatchEvent'', ''u2'', ''r1''], [''e4'', ''ForkEvent'', ''u1'', ''r2'']],
      reposFile = Inr []\<rparr> =
     csv_table [''id'', ''type'', ''actor_id'', ''repo_id'']
       (map Event_row
         [\<lparr>Event_ID = ''e1'', Event_Type = ''PushEvent'',
       Event_ActorID = ''u1'', Event_RepoID = ''r1''\<rparr>,
      \<lparr>Event_ID = ''e2'', Event_Type = ''PullRequestEvent'',
       Event_ActorID = ''u1'', Event_RepoID = ''r1''\<rparr>,
      \<lparr>Event_ID = ''e3'', Event_Type = ''WatchEvent'',
       Event_ActorID = ''u2'', Event_RepoID = ''r1''\<rparr>,
      \<lparr>Event_ID = ''e4'', Event_Type = ''ForkEvent'',
       Event_ActorID = ''u1'', Event_RepoID = ''r2''\<rparr>]) \<and>
   countCommitsByEvent
     \<lparr>actorsFile = Inr [],
      commitsFile = csv_table [''sha'', ''message'', ''event_id'']
        [[''h1'', ''m'', ''e1''], [''h2'', ''m'', ''e5''], [''h3'', ''m'', ''e1'']],
      eventsFile = csv_table [''id'', ''type'', ''actor_id'', ''repo_id'']
        [[''e1'', ''PushEvent'', ''u1'', ''r1''], [''e2'', ''PullRequestEvent'', ''u1'', ''r1''],
         [''e3'', ''WatchEvent'', ''u2'', ''r1''], [''e4'', ''ForkEvent'', ''u1'', ''r2'']],
      reposFile = Inr []\<rparr> ''e1'' = Inr 2 \<and>
   Event_Type
     \<lparr>Event_ID = ''e1'', Event_Type = ''PushEvent'',
       Event_ActorID = ''u1'', Event_RepoID = ''r1''\<rparr> = eventTypePush \<and>
   PO_event
     \<lparr>actorsFile = Inr [],
      commitsFile = csv_table [''sha'', ''message'', ''event_id'']
        [[''h1'', ''m'', ''e1''], [''h2'', ''m'', ''e5''], [''h3'', ''m'', ''e1'']],
      eventsFile = csv_table [''id'', ''type'', ''actor_id'', ''repo_id'']
        [[''e1'', ''PushEvent'', ''u1'', ''r1''], [''e2'', ''PullRequestEvent'', ''u1'', ''r1''],
         [''e3'', ''WatchEvent'', ''u2'', ''r1''], [''e4'', ''ForkEvent'', ''u1'', ''r2'']],
      reposFile = Inr []\<rparr>
     \<lparr>Event_ID = ''e1'', Event_Type = ''PushEvent'',
       Event_ActorID = ''u1'', Event_RepoID = ''r1''\<rparr> Map.empty Map.empty =
     Inr ([''u1'' \<mapsto> \<lparr>RU_ID = ''u1'', RU_Username = '''', RU_Commits = 2, RU_PREvents = 0\<rparr>],
          [''r1'' \<mapsto> \<lparr>RCW_ID = ''r1'', RCW_Name = '''', RCW_Commits = 2, RCW_WatchEvents = 0\<rparr>]) \<and>
   countUserRating_event
     \<lparr>actorsFile = Inr [],
      commitsFile = csv_table [''sha'', ''message'', ''event_id'']
        [[''h1'', ''m'', ''e1''], [''h2'', ''m'', ''e5''], [''h3'', ''m'', ''e1'']],
      eventsFile = csv_table [''id'', ''type'', ''actor_id'', ''repo_id'']
        [[''e1'', ''PushEvent'', ''u1'', ''r1''], [''e2'', ''PullRequestEvent'', ''u1'', ''r1''],
         [''e3'', ''WatchEvent'', ''u2'', ''r1''], [''e4'', ''ForkEvent'', ''u1'', ''r2'']],
      reposFile = Inr []\<rparr> ''u1''
     \<lparr>Event_ID = ''e1'', Event_Type = ''PushEvent'',
       Event_ActorID = ''u1'', Event_RepoID = ''r1''\<rparr> 0 0 = Inr (2, 0) \<and>
   countRepoRating_event
     \<lparr>actorsFile = Inr [],
      commitsFile = csv_table [''sha'', ''message'', ''event_id'']
        [[''h1'', ''m'', ''e1''], [''h2'', ''m'', ''e5''], [''h3'', ''m'', ''e1'']],
      eventsFile = csv_table [''id'', ''type'', ''actor_id'', ''repo_id'']
        [[''e1'', ''PushEvent'', ''u1'', ''r1''], [''e2'', ''PullRequestEvent'', ''u1'', ''r1''],
         [''e3'', ''WatchEvent'', ''u2'', ''r1''], [''e4'', ''ForkEvent'', ''u1'', ''r2'']],
      reposFile = Inr []\<rparr> ''r1''
     \<lparr>Event_ID = ''e1'', Event_Type = ''PushEvent'',
       Event_ActorID = ''u1'', Event_RepoID = ''r1''\<rparr> 0 0 = Inr (2, 0) \<and>
   PO_events
     \<lparr>actorsFile = Inr [],
      commitsFile = csv_table [''sha'', ''message'', ''event_id'']
        [[''h1'', ''m'', ''e1''], [''h2'', ''m'', ''e5''], [''h3'', ''m'', ''e1'']],
      eventsFile = csv_table [''id'', ''type'', ''actor_id'', ''repo_id'']
        [[''e1'', ''PushEvent'', ''u1'', ''r1''], [''e2'', ''PullRequestEvent'', ''u1'', ''r1''],
         [''e3'', ''WatchEvent'', ''u2'', ''r1''], [''e4'', ''ForkEvent'', ''u1'', ''r2'']],
      reposFile = Inr []\<rparr> =
     Returned
       ([''u1'' \<mapsto> \<lparr>RU_ID = ''u1'', RU_Username = '''', RU_Commits = 2, RU_PREvents = 1\<rparr>],
        [''r1'' \<mapsto> \<lparr>RCW_ID = ''r1'', RCW_Name = '''', RCW_Commits = 2, RCW_WatchEvents = 1\<rparr>]) \<and>
   countUserRating
     \<lparr>actorsFile = Inr [],
      commitsFile = csv_table [''sha'', ''message'', ''event_id'']
        [[''h1'', ''m'', ''e1''], [''h2'', ''m'', ''e5''], [''h3'', ''m'', ''e1'']],
      eventsFile = csv_table [''id'', ''type'', ''actor_id'', ''repo_id'']
        [[''e1'', ''PushEvent'', ''u1'', ''r1''], [''e2'', ''PullRequestEvent'', ''u1'', ''r1''],
         [''e3'', ''WatchEvent'', ''u2'', ''r1''], [''e4'', ''ForkEvent'', ''u1'', ''r2'']],
      reposFile = Inr []\<rparr> ''u1'' = Inr (2, 1) \<and>
   countRepoRating
     \<lparr>actorsFile = Inr [],
      commitsFile = csv_table [''sha'', ''message'', ''event_id'']
        [[''h1'', ''m'', ''e1''], [''h2'', ''m'', ''e5''], [''h3'', ''m'', ''e1'']],
      eventsFile = csv_table [''id'', ''type'', ''actor_id'', ''repo_id'']
        [[''e1'', ''PushEvent'', ''u1'', ''r1''], [''e2'', ''PullRequestEvent'', ''u1'', ''r1''],
         [''e3'', ''WatchEvent'', ''u2'', ''r1''], [''e4'', ''ForkEvent'', ''u1'', ''r2'']],
      reposFile = Inr []\<rparr> ''r1'' = Inr (2, 1) \<and>
   countUserRating
     \<lparr>actorsFile = Inr [],
      commitsFile = csv_table [''sha'', ''message'', ''event_id'']
        [[''h1'', ''m'', ''e1''], [''h2'', ''m'', ''e5''], [''h3'', ''m'', ''e1'']],
      eventsFile = csv_table [''id'', ''type'', ''actor_id'', ''repo_id'']
        [[''e1'', ''PushEvent'', ''u1'', ''r1''], [''e2'', ''PullRequestEvent'', ''u1'', ''r1''],
         [''e3'', ''WatchEvent'', ''u2'', ''r1''], [''e4'', ''ForkEvent'', ''u1'', ''r2'']],
      reposFile = Inr []\<rparr> ''u2'' = Inr (0, 0) \<and>
   Event_Type
     \<lparr>Event_ID = ''e2'', Event_Type = ''PullRequestEvent'',
       Event_ActorID = ''u1'', Event_RepoID = ''r1''\<rparr> = eventTypePullRequest \<and>
   PO_event
     \<lparr>actorsFile = Inr [],
      commitsFile = csv_table [''sha'', ''message'', ''event_id'']
        [[''h1'', ''m'', ''e1''], [''h2'', ''m'', ''e5''], [''h3'', ''m'', ''e1'']],
      eventsFile = csv_table [''id'', ''type'', ''actor_id'', ''repo_id'']
        [[''e1'', ''PushEvent'', ''u1'', ''r1''], [''e2'', ''PullRequestEvent'', ''u1'', ''r1''],
         [''e3'', ''WatchEvent'', ''u2'', ''r1''], [''e4'', ''ForkEvent'', ''u1'', ''r2'']],
      reposFile = Inr []\<rparr>
     \<lparr>Event_ID = ''e2'', Event_Type = ''PullRequestEvent'',
       Event_ActorID = ''u1'', Event_RepoID = ''r1''\<rparr> Map.empty Map.empty =
     Inr ([''u1'' \<mapsto> \<lparr>RU_ID = ''u1'', RU_Username = '''', RU_Commits = 0, RU_PREvents = 1\<rparr>],
          Map.empty) \<and>
   Event_Type
     \<lparr>Event_ID = ''e3'', Event_Type = ''WatchEvent'',
       Event_ActorID = ''u2'', Event_RepoID = ''r1''\<rparr> = eventTypeWatch \<and>
   PO_event
     \<lparr>actorsFile = Inr [],
      commitsFile = csv_table [''sha'', ''message'', ''event_id'']
        [[''h1'', ''m'', ''e1''], [''h2'', ''m'', ''e5''], [''h3'', ''m'', ''e1'']],
      eventsFile = csv_table [''id'', ''type'', ''actor_id'', ''repo_id'']
        [[''e1'', ''PushEvent'', ''u1'', ''r1''], [''e2'', ''PullRequestEvent'', ''u1'', ''r1''],
         [''e3'', ''WatchEvent'', ''u2'', ''r1''], [''e4'', ''ForkEvent'', ''u1'', ''r2'']],
      reposFile = Inr []\<rparr>
     \<lparr>Event_ID = ''e3'', Event_Type = ''WatchEvent'',
       Event_ActorID = ''u2'', Event_RepoID = ''r1''\<rparr> Map.empty Map.empty =
     Inr (Map.empty,
          [''r1'' \<mapsto> \<lparr>RCW_ID = ''r1'', RCW_Name = '''', RCW_Commits = 0, RCW_WatchEvents = 1\<rparr>]) \<and>
   \<not> relevant_event
     \<lparr>Event_ID = ''e4'', Event_Type = ''ForkEvent'',
       Event_ActorID = ''u1'', Event_RepoID = ''r2''\<rparr> \<and>
   PO_event
     \<lparr>actorsFile = Inr [],
      commitsFile = csv_table [''sha'', ''message'', ''event_id'']
        [[''h1'', ''m'', ''e1''], [''h2'', ''m'', ''e5''], [''h3'', ''m'', ''e1'']],
      eventsFile = csv_table [''id'', ''type'', ''actor_id'', ''repo_id'']
        [[''e1'', ''PushEvent'', ''u1'', ''r1''], [''e2'', ''PullRequestEvent'', ''u1'', ''r1''],
         [''e3'', ''WatchEvent'', ''u2'', ''r1''], [''e4'', ''ForkEvent'', ''u1'', ''r2'']],
      reposFile = Inr []\<rparr>
     \<lparr>Event_ID = ''e4'', Event_Type = ''ForkEvent'',
       Event_ActorID = ''u1'', Event_RepoID = ''r2''\<rparr>
     (Map.empty :: users_map) (Map.empty :: repos_map) = Inr (Map.empty, Map.empty)"
  using event_contributions
    [where a = "\<lparr>actorsFile = Inr [],
      commitsFile = csv_table [''sha'', ''message'', ''event_id'']
        [[''h1'', ''m'', ''e1''], [''h2'', ''m'', ''e5''], [''h3'', ''m'', ''e1'']],
      eventsFile = csv_table [''id'', ''type'', ''actor_id'', ''repo_id'']
        [[''e1'', ''PushEvent'', ''u1'', ''r1''], [''e2'', ''PullRequestEvent'', ''u1'', ''r1''],
         [''e3'', ''WatchEvent'', ''u2'', ''r1''], [''e4'', ''ForkEvent'', ''u1'', ''r2'']],
      reposFile = Inr []\<rparr>"
       and header = "[''sha'', ''message'', ''event_id'']"
       and cs = "[\<lparr>Commit_Hash = ''h1'', Commit_Message = ''m'', Commit_EventID = ''e1''\<rparr>,
      \<lparr>Commit_Hash = ''h2'', Commit_Message = ''m'', Commit_EventID = ''e5''\<rparr>,
      \<lparr>Commit_Hash = ''h3'', Commit_Message = ''m'', Commit_EventID = ''e1''\<rparr>]"
       and eventID = "''e1''"
       and e = "\<lparr>Event_ID = ''e1'', Event_Type = ''PushEvent'',
       Event_ActorID = ''u1'', Event_RepoID = ''r1''\<rparr>"
       and n = 2 and users = Map.empty and repos = Map.empty
       and userID = "''u1''" and tc = 0 and tp = 0
       and repoID = "''r1''" and cp = 0 and we = 0
       and rest = "[]"
       and eheader = "[''id'', ''type'', ''actor_id'', ''repo_id'']"
       and es = "[\<lparr>Event_ID = ''e1'', Event_Type = ''PushEvent'',
       Event_ActorID = ''u1'', Event_RepoID = ''r1''\<rparr>,
      \<lparr>Event_ID = ''e2'', Event_Type = ''PullRequestEvent'',
       Event_ActorID = ''u1'', Event_RepoID = ''r1''\<rparr>,
      \<lparr>Event_ID = ''e3'', Event_Type = ''WatchEvent'',
       Event_ActorID = ''u2'', Event_RepoID = ''r1''\<rparr>,
      \<lparr>Event_ID = ''e4'', Event_Type = ''ForkEvent'',
       Event_ActorID = ''u1'', Event_RepoID = ''r2''\<rparr>]"]
  by (simp add: eval_defs Commit_row_def Event_row_def relevant_event_def pushedCommits_def)

subsection \<open>The two strategies compute the same counts\<close>

text \<open>
  Claim C2, as stated, fails. The space-optimized strategy rates every row of the user
  table, the single-pass strategy every id that a relevant event names. With one user
  and no events the first rates that user (with counts 0) and the second rates nobody
  (its maps are empty, so its two final loops meet no key).
\<close>

theorem strategies_differ_counterexample:
  "SpaceOptimizedRatings
     \<lparr>actorsFile = csv_table [''id'', ''username''] [[''u2'', ''bob'']],
      commitsFile = csv_table [''sha'', ''message'', ''event_id''] [],
      eventsFile = csv_table [''id'', ''type'', ''actor_id'', ''repo_id''] [],
      reposFile = csv_table [''id'', ''name''] []\<rparr> =
   Returned
     (\<lparr>slice_r = [OfRatableUser \<lparr>RU_ID = ''u2'', RU_Username = ''bob'',
                                   RU_Commits = 0, RU_PREvents = 0\<rparr>], size_r = 10\<rparr>,
      \<lparr>slice_r = [], size_r = 10\<rparr>, \<lparr>slice_r = [], size_r = 10\<rparr>) \<and>
   PerformanceOptimizedRatings
     \<lparr>actorsFile = csv_table [''id'', ''username''] [[''u2'', ''bob'']],
      commitsFile = csv_table [''sha'', ''message'', ''event_id''] [],
      eventsFile = csv_table [''id'', ''type'', ''actor_id'', ''repo_id''] [],
      reposFile = csv_table [''id'', ''name''] []\<rparr> [] [] =
   Returned
     (\<lparr>slice_r = [], size_r = 10\<rparr>, \<lparr>slice_r = [], size_r = 10\<rparr>,
      \<lparr>slice_r = [], size_r = 10\<rparr>) \<and>
   SpaceOptimizedRatings
     \<lparr>actorsFile = csv_table [''id'', ''username''] [[''u2'', ''bob'']],
      commitsFile = csv_table [''sha'', ''message'', ''event_id''] [],
      eventsFile = csv_table [''id'', ''type'', ''actor_id'', ''repo_id''] [],
      reposFile = csv_table [''id'', ''name''] []\<rparr> \<noteq>
   PerformanceOptimizedRatings
     \<lparr>actorsFile = csv_table [''id'', ''username''] [[''u2'', ''bob'']],
      commitsFile = csv_table [''sha'', ''message'', ''event_id''] [],
      eventsFile = csv_table [''id'', ''type'', ''actor_id'', ''repo_id''] [],
      reposFile = csv_table [''id'', ''name''] []\<rparr> [] []"
  by (simp add: eval_defs)

text \<open>
  Claim C2, amended. Whenever the event pass of the single-pass strategy succeeds, the
  counts that the space-optimized strategy computes for any user id and any repo id are
  the counts the single pass holds for that id (0 where it holds no entry).
\<close>

theorem strategies_agree_on_counts:
  assumes "PO_events a = Returned (users, repos)"
  shows "countUserRating a u = Inr (userCommits users u, userPREvents users u) \<and>
         countRepoRating a r = Inr (repoCommits repos r, repoWatchEvents repos r)"
proof (cases "eventsFile a")
  case (Inl err)
  with assms show ?thesis by (simp add: PO_events_def)
next
  case (Inr rows)
  with assms have loop: "PO_events_loop a rows False Map.empty Map.empty = Returned (users, repos)"
    by (simp add: PO_events_def)
  have "countUserRating_loop a u rows False 0 0 = Inr (userCommits users u, userPREvents users u)"
    using loop_agree_user[OF loop, of u] by (simp add: userCommits_def userPREvents_def)
  moreover have "countRepoRating_loop a r rows False 0 0 =
      Inr (repoCommits repos r, repoWatchEvents repos r)"
    using loop_agree_repo[OF loop, of r] by (simp add: repoCommits_def repoWatchEvents_def)
  ultimately show ?thesis
    using Inr by (simp add: countUserRating_def countRepoRating_def)
qed

theorem strategies_agree_on_counts_witness:
  "PO_events
     \<lparr>actorsFile = Inr [],
      commitsFile = csv_table [''sha'', ''message'', ''event_id'']
        [[''h1'', ''m'', ''e1''], [''h2'', ''m'', ''e1'']],
      eventsFile = csv_table [''id'', ''type'', ''actor_id'', ''repo_id'']
        [[''e1'', ''PushEvent'', ''u1'', ''r1''], [''e2'', ''WatchEvent'', ''u2'', ''r1'']],
      reposFile = Inr []\<rparr> =
   Returned
     ([''u1'' \<mapsto> \<lparr>RU_ID = ''u1'', RU_Username = '''', RU_Commits = 2, RU_PREvents = 0\<rparr>],
      [''r1'' \<mapsto> \<lparr>RCW_ID = ''r1'', RCW_Name = '''', RCW_Commits = 2, RCW_WatchEvents = 1\<rparr>]) \<and>
   countUserRating
     \<lparr>actorsFile = Inr [],
      commitsFile = csv_table [''sha'', ''message'', ''event_id'']
        [[''h1'', ''m'', ''e1''], [''h2'', ''m'', ''e1'']],
      eventsFile = csv_table [''id'', ''type'', ''actor_id'', ''repo_id'']
        [[''e1'', ''PushEvent'', ''u1'', ''r1''], [''e2'', ''WatchEvent'', ''u2'', ''r1'']],
      reposFile = Inr []\<rparr> ''u1'' = Inr (2, 0) \<and>
   countRepoRating
     \<lparr>actorsFile = Inr [],
      commitsFile = csv_table [''sha'', ''message'', ''event_id'']
        [[''h1'', ''m'', ''e1''], [''h2'', ''m'', ''e1'']],
      eventsFile = csv_table [''id'', ''type'', ''actor_id'', ''repo_id'']
        [[''e1'', ''PushEvent'', ''u1'', ''r1''], [''e2'', ''WatchEvent'', ''u2'', ''r1'']],
      reposFile = Inr []\<rparr> ''r1'' = Inr (2, 1)"
proof -
  have h: "PO_events
     \<lparr>actorsFile = Inr [],
      commitsFile = csv_table [''sha'', ''message'', ''event_id'']
        [[''h1'', ''m'', ''e1''], [''h2'', ''m'', ''e1'']],
      eventsFile = csv_table [''id'', ''type'', ''actor_id'', ''repo_id'']
        [[''e1'', ''PushEvent'', ''u1'', ''r1''], [''e2'', ''WatchEvent'', ''u2'', ''r1'']],
      reposFile = Inr []\<rparr> =
   Returned
     ([''u1'' \<mapsto> \<lparr>RU_ID = ''u1'', RU_Username = '''', RU_Commits = 2, RU_PREvents = 0\<rparr>],
      [''r1'' \<mapsto> \<lparr>RCW_ID = ''r1'', RCW_Name = '''', RCW_Commits = 2, RCW_WatchEvents = 1\<rparr>])"
    by (simp add: eval_defs)
  show ?thesis
    using h strategies_agree_on_counts[OF h, of "''u1''" "''r1''"]
    by (simp add: userCommits_def userPREvents_def repoCommits_def repoWatchEvents_def)
qed

subsection \<open>Which ids have a stats record\<close>

lemma PO_event_dom:
  "PO_event a e users repos = Inr (users', repos') \<Longrightarrow>
   dom users' = (if Event_Type e = eventTypePush \<or> Event_Type e = eventTypePullRequest
                 then insert (Event_ActorID e) (dom users) else dom users) \<and>
   dom repos' = (if Event_Type e = eventTypePush \<or> Event_Type e = eventTypeWatch
                 then insert (Event_RepoID e) (dom repos) else dom repos)"
  by (auto simp: PO_event_def split: if_splits sum.splits option.splits)

lemma PO_events_loop_dom:
  "PO_events_loop a (map (Inr \<circ> Event_row) es) True users repos = Returned (users', repos') \<Longrightarrow>
   dom users' = dom users \<union>
     Event_ActorID ` {e \<in> set es. Event_Type e = eventTypePush \<or> Event_Type e = eventTypePullRequest} \<and>
   dom repos' = dom repos \<union>
     Event_RepoID ` {e \<in> set es. Event_Type e = eventTypePush \<or> Event_Type e = eventTypeWatch}"
proof (induction es arbitrary: users repos)
  case Nil
  then show ?case by simp
next
  case (Cons e es)
  show ?case
  proof (cases "PO_event a e users repos")
    case (Inl err)
    with Cons.prems show ?thesis by simp
  next
    case (Inr p)
    obtain users1 repos1 where p: "p = (users1, repos1)" by (cases p)
    have rest: "PO_events_loop a (map (Inr \<circ> Event_row) es) True users1 repos1 =
        Returned (users', repos')"
      using Cons.prems Inr p by (simp add: comp_def)
    note IH = Cons.IH[OF rest]
    note d = PO_event_dom[OF Inr[unfolded p]]
    show ?thesis
      unfolding conjunct1[OF IH] conjunct2[OF IH] conjunct1[OF d] conjunct2[OF d]
      by auto
  qed
qed

text \<open>
  Claim C8, as stated, fails. A Watch event is relevant and references its actor, but it
  creates a record for its repo only: after a table with the one Watch event of actor u1
  on repo r1, neither map has a record for u1.
\<close>

theorem stats_record_counterexample:
  "PO_events
     \<lparr>actorsFile = csv_table [''id'', ''username''] [],
      commitsFile = csv_table [''sha'', ''message'', ''event_id''] [],
      eventsFile = csv_table [''id'', ''type'', ''actor_id'', ''repo_id'']
                     [[''e1'', ''WatchEvent'', ''u1'', ''r1'']],
      reposFile = csv_table [''id'', ''name''] []\<rparr> =
   Returned (Map.empty,
     [''r1'' \<mapsto> \<lparr>RCW_ID = ''r1'', RCW_Name = '''', RCW_Commits = 0, RCW_WatchEvents = 1\<rparr>]) \<and>
   \<not> (((Map.empty :: users_map) ''u1'' \<noteq> None \<or>
        [''r1'' \<mapsto> \<lparr>RCW_ID = ''r1'', RCW_Name = '''', RCW_Commits = 0, RCW_WatchEvents = 1\<rparr>]
          ''u1'' \<noteq> None) \<longleftrightarrow>
       (relevant_event \<lparr>Event_ID = ''e1'', Event_Type = ''WatchEvent'',
                        Event_ActorID = ''u1'', Event_RepoID = ''r1''\<rparr> \<and>
        references \<lparr>Event_ID = ''e1'', Event_Type = ''WatchEvent'',
                    Event_ActorID = ''u1'', Event_RepoID = ''r1''\<rparr> ''u1''))"
  by (simp add: eval_defs relevant_event_def references_def)

text \<open>
  Claim C8, amended. After a successful event pass over a table of events, the users
  map has a record for an id exactly when a Push or PullRequest event of the table has
  that id as its actor, and the repos map has a record for an id exactly when a Push or
  Watch event of the table has that id as its repo.
\<close>

theorem stats_record_exists_iff:
  assumes "eventsFile a = csv_table header (map Event_row es)"
    and "PO_events a = Returned (users, repos)"
  shows "(users u \<noteq> None \<longleftrightarrow>
            (\<exists>e\<in>set es. (Event_Type e = eventTypePush \<or> Event_Type e = eventTypePullRequest) \<and>
                          Event_ActorID e = u)) \<and>
         (repos r \<noteq> None \<longleftrightarrow>
            (\<exists>e\<in>set es. (Event_Type e = eventTypePush \<or> Event_Type e = eventTypeWatch) \<and>
                          Event_RepoID e = r))"
proof -
  have "PO_events_loop a (map (Inr \<circ> Event_row) es) True Map.empty Map.empty =
      Returned (users, repos)"
    using assms by (simp add: PO_events_def csv_table_def)
  from PO_events_loop_dom[OF this]
  have "dom users =
     Event_ActorID ` {e \<in> set es. Event_Type e = eventTypePush \<or> Event_Type e = eventTypePullRequest}"
    and "dom repos =
     Event_RepoID ` {e \<in> set es. Event_Type e = eventTypePush \<or> Event_Type e = eventTypeWatch}"
    by simp_all
  then have "u \<in> dom users \<longleftrightarrow>
      (\<exists>e\<in>set es. (Event_Type e = eventTypePush \<or> Event_Type e = eventTypePullRequest) \<and>
                          Event_ActorID e = u)"
    and "r \<in> dom repos \<longleftrightarrow>
      (\<exists>e\<in>set es. (Event_Type e = eventTypePush \<or> Event_Type e = eventTypeWatch) \<and>
                          Event_RepoID e = r)"
    by auto
  then show ?thesis by (simp add: domIff)
qed

theorem stats_record_exists_iff_witness:
  "eventsFile
     \<lparr>actorsFile = Inr [], commitsFile = Inr [],
      eventsFile = csv_table [''id'', ''type'', ''actor_id'', ''repo_id'']
        [[''e1'', ''WatchEvent'', ''u1'', ''r1'']],
      reposFile = Inr []\<rparr> =
     csv_table [''id'', ''type'', ''actor_id'', ''repo_id'']
       (map Event_row [\<lparr>Event_ID = ''e1'', Event_Type = ''WatchEvent'',
                        Event_ActorID = ''u1'', Event_RepoID = ''r1''\<rparr>]) \<and>
   PO_events
     \<lparr>actorsFile = Inr [], commitsFile = Inr [],
      eventsFile = csv_table [''id'', ''type'', ''actor_id'', ''repo_id'']
        [[''e1'', ''WatchEvent'', ''u1'', ''r1'']],
      reposFile = Inr []\<rparr> =
   Returned (Map.empty,
     [''r1'' \<mapsto> \<lparr>RCW_ID = ''r1'', RCW_Name = '''', RCW_Commits = 0, RCW_WatchEvents = 1\<rparr>]) \<and>
   (Map.empty :: users_map) ''u1'' = None \<and>
   [''r1'' \<mapsto> \<lparr>RCW_ID = ''r1'', RCW_Name = '''', RCW_Commits = 0, RCW_WatchEvents = 1\<rparr>]
     ''r1'' \<noteq> None"
proof -
  have h1: "eventsFile
     \<lparr>actorsFile = Inr [], commitsFile = Inr [],
      eventsFile = csv_table [''id'', ''type'', ''actor_id'', ''repo_id'']
        [[''e1'', ''WatchEvent'', ''u1'', ''r1'']],
      reposFile = Inr []\<rparr> =
     csv_table [''id'', ''type'', ''actor_id'', ''repo_id'']
       (map Event_row [\<lparr>Event_ID = ''e1'', Event_Type = ''WatchEvent'',
                        Event_ActorID = ''u1'', Event_RepoID = ''r1''\<rparr>])"
    by (simp add: Event_row_def)
  have h2: "PO_events
     \<lparr>actorsFile = Inr [], commitsFile = Inr [],
      eventsFile = csv_table [''id'', ''type'', ''actor_id'', ''repo_id'']
        [[''e1'', ''WatchEvent'', ''u1'', ''r1'']],
      reposFile = Inr []\<rparr> =
   Returned (Map.empty,
     [''r1'' \<mapsto> \<lparr>RCW_ID = ''r1'', RCW_Name = '''', RCW_Commits = 0, RCW_WatchEvents = 1\<rparr>])"
    by (simp add: eval_defs)
  show ?thesis
    using h1 h2 stats_record_exists_iff[OF h1 h2, of "''u1''" "''r1''"]
    by simp
qed

subsection \<open>Failures\<close>

text \<open>
  Claim C4. The claim has every I/O or decode failure of a scan abort the aggregation
  with the error. When the commit table cannot be opened, \<^verbatim>\<open>countCommitsByEvent\<close>
  returns the count 0 and no error, and the single-pass strategy returns three ratings
  built on that count. When an event record has the wrong number of fields, the single
  pass does not return the decode error: it panics.
\<close>

theorem commits_open_failure_swallowed:
  "countCommitsByEvent
     \<lparr>actorsFile = csv_table [''id'', ''username''] [],
      commitsFile = Inl (IOError ''open commits.csv: no such file or directory''),
      eventsFile = csv_table [''id'', ''type'', ''actor_id'', ''repo_id'']
                     [[''e1'', ''PushEvent'', ''u1'', ''r1'']],
      reposFile = csv_table [''id'', ''name''] []\<rparr> ''e1'' = Inr 0 \<and>
   PerformanceOptimizedRatings
     \<lparr>actorsFile = csv_table [''id'', ''username''] [],
      commitsFile = Inl (IOError ''open commits.csv: no such file or directory''),
      eventsFile = csv_table [''id'', ''type'', ''actor_id'', ''repo_id'']
                     [[''e1'', ''PushEvent'', ''u1'', ''r1'']],
      reposFile = csv_table [''id'', ''name''] []\<rparr> [''u1''] [''r1''] =
   Returned
     (\<lparr>slice_r = [OfRatableUser \<lparr>RU_ID = ''u1'', RU_Username = '''',
                                   RU_Commits = 0, RU_PREvents = 0\<rparr>], size_r = 10\<rparr>,
      \<lparr>slice_r = [OfCommitRatableRepo \<lparr>CRR_ID = ''r1'', CRR_Name = '''',
                                         CRR_Commits = 0\<rparr>], size_r = 10\<rparr>,
      \<lparr>slice_r = [OfWatchRatableRepo \<lparr>WRR_ID = ''r1'', WRR_Name = '''',
                                        WRR_WatchEvents = 0\<rparr>], size_r = 10\<rparr>) \<and>
   PerformanceOptimizedRatings
     \<lparr>actorsFile = csv_table [''id'', ''username''] [],
      commitsFile = csv_table [''sha'', ''message'', ''event_id''] [],
      eventsFile = csv_table [''id'', ''type'', ''actor_id'']
                     [[''e1'', ''PushEvent'', ''u1'']],
      reposFile = csv_table [''id'', ''name''] []\<rparr> [] [] = Panicked"
  by (simp add: eval_defs)

subsection \<open>Name backfill\<close>

lemma NewUserFromCSV_row [simp]: "NewUserFromCSV (User_row u) = Inr u"
  by (simp add: NewUserFromCSV_def User_row_def)

lemma NewRepoFromCSV_row [simp]: "NewRepoFromCSV (Repo_row r) = Inr r"
  by (simp add: NewRepoFromCSV_def Repo_row_def)

text \<open>
  On a user table that reads without error, \<^verbatim>\<open>fillUsernames\<close> leaves the keys and
  the counters of the map alone and overwrites the username of every entry whose id has a
  row, with that id.
\<close>

lemma fillUsernames_loop_rows:
  "fillUsernames_loop (map (Inr \<circ> User_row) us) True users =
     Inr (\<lambda>k. case users k of
                 None \<Rightarrow> None
               | Some x \<Rightarrow> Some (if k \<in> User_ID ` set us then x\<lparr>RU_Username := k\<rparr> else x))"
proof (induction us arbitrary: users)
  case Nil
  then show ?case by (auto simp: fun_eq_iff split: option.splits)
next
  case (Cons u us)
  show ?case
    by (cases "users (User_ID u)")
       (auto simp: Cons.IH[unfolded comp_def] comp_def fun_eq_iff split: option.splits)
qed

text \<open>
  On a repo table that reads without error, \<^verbatim>\<open>fillRepoNames\<close> gives every entry
  whose id has a row the name of the last such row, and leaves the other entries alone.
\<close>

lemma find_app:
  "find P (xs @ ys) = (case find P xs of None \<Rightarrow> find P ys | Some x \<Rightarrow> Some x)"
  by (induction xs) simp_all

lemma fillRepoNames_loop_rows:
  "fillRepoNames_loop (map (Inr \<circ> Repo_row) rs) True repos =
     Inr (\<lambda>k. case repos k of
                 None \<Rightarrow> None
               | Some x \<Rightarrow> Some (case find (\<lambda>r. Repo_ID r = k) (rev rs) of
                                   None \<Rightarrow> x
                                 | Some r \<Rightarrow> x\<lparr>RCW_Name := Repo_Name r\<rparr>))"
proof (induction rs arbitrary: repos)
  case Nil
  then show ?case by (auto simp: fun_eq_iff split: option.splits)
next
  case (Cons r rs)
  show ?case
    by (cases "repos (Repo_ID r)")
       (auto simp: Cons.IH[unfolded comp_def] comp_def fun_eq_iff find_app split: option.splits)
qed

lemma fillUsernames_table:
  "actorsFile a = csv_table header (map User_row us) \<Longrightarrow>
   fillUsernames a users =
     Inr (\<lambda>k. case users k of
                 None \<Rightarrow> None
               | Some x \<Rightarrow> Some (if k \<in> User_ID ` set us then x\<lparr>RU_Username := k\<rparr> else x))"
  by (simp add: fillUsernames_def csv_table_def fillUsernames_loop_rows)

lemma fillRepoNames_table:
  "reposFile a = csv_table header (map Repo_row rs) \<Longrightarrow>
   fillRepoNames a repos =
     Inr (\<lambda>k. case repos k of
                 None \<Rightarrow> None
               | Some x \<Rightarrow> Some (case find (\<lambda>r. Repo_ID r = k) (rev rs) of
                                   None \<Rightarrow> x
                                 | Some r \<Rightarrow> x\<lparr>RCW_Name := Repo_Name r\<rparr>))"
  by (simp add: fillRepoNames_def csv_table_def fillRepoNames_loop_rows)

text \<open>
  Claim C6. The claim has the backfill store the username of the matching row of the
  user table. \<^verbatim>\<open>fillUsernames\<close> stores the row's id: for the row (u1, alice) the
  entry of u1 ends with the username u1, and so does the item in the users rating.
\<close>

theorem fillUsernames_stores_id:
  "fillUsernames
     \<lparr>actorsFile = csv_table [''id'', ''username''] [[''u1'', ''alice'']],
      commitsFile = csv_table [''sha'', ''message'', ''event_id''] [],
      eventsFile = csv_table [''id'', ''type'', ''actor_id'', ''repo_id'']
                     [[''e1'', ''PullRequestEvent'', ''u1'', ''r1'']],
      reposFile = csv_table [''id'', ''name''] []\<rparr>
     [''u1'' \<mapsto> \<lparr>RU_ID = ''u1'', RU_Username = '''', RU_Commits = 0, RU_PREvents = 1\<rparr>] =
   Inr [''u1'' \<mapsto> \<lparr>RU_ID = ''u1'', RU_Username = ''u1'', RU_Commits = 0, RU_PREvents = 1\<rparr>] \<and>
   PerformanceOptimizedRatings
     \<lparr>actorsFile = csv_table [''id'', ''username''] [[''u1'', ''alice'']],
      commitsFile = csv_table [''sha'', ''message'', ''event_id''] [],
      eventsFile = csv_table [''id'', ''type'', ''actor_id'', ''repo_id'']
                     [[''e1'', ''PullRequestEvent'', ''u1'', ''r1'']],
      reposFile = csv_table [''id'', ''name''] []\<rparr> [''u1''] [] =
   Returned
     (\<lparr>slice_r = [OfRatableUser \<lparr>RU_ID = ''u1'', RU_Username = ''u1'',
                                   RU_Commits = 0, RU_PREvents = 1\<rparr>], size_r = 10\<rparr>,
      \<lparr>slice_r = [], size_r = 10\<rparr>, \<lparr>slice_r = [], size_r = 10\<rparr>)"
  by (simp add: eval_defs)

end
